theory Spec2Isabelle
  imports Main
begin

section \<open>JavaScript values the program computes with\<close>

text \<open>
  The program is TypeScript running on a JavaScript engine.  Strings are modelled as
  \<^typ>\<open>string\<close>; the characters of the model are the code units below 256.  A value that
  may be \<^verbatim>\<open>undefined\<close> at run time is an \<^typ>\<open>'a option\<close> with \<^term>\<open>None\<close> for
  \<^verbatim>\<open>undefined\<close>.  Every exception the code or the runtime can raise is a value of
  \<open>error\<close>.
\<close>

datatype error =
    Error string      \<comment> \<open>\<^verbatim>\<open>throw new Error(message)\<close>\<close>
  | TypeError string  \<comment> \<open>member access on \<^verbatim>\<open>undefined\<close> or \<^verbatim>\<open>null\<close>; the member is named\<close>
  | FsError string    \<comment> \<open>\<^verbatim>\<open>fs\<close> or \<^verbatim>\<open>require.resolve\<close> failed on the path\<close>
  | SyntaxError       \<comment> \<open>\<^verbatim>\<open>JSON.parse\<close> rejected the text\<close>

text \<open>
  Numbers are IEEE doubles.  The program only ever produces integral values, the two
  infinities and NaN (from \<^verbatim>\<open>parseInt\<close>, unary plus and \<^verbatim>\<open>+ 1\<close>), so a number is
  one of these; negative zero prints and adds like zero and is identified with it.
\<close>

datatype jsnum = NaN | PosInfinity | NegInfinity | Num int

fun bitlen :: "nat \<Rightarrow> nat" where
  "bitlen n = (if n = 0 then 0 else Suc (bitlen (n div 2)))"

declare bitlen.simps [simp del]

definition round53 :: "nat \<Rightarrow> nat" where
  \<comment> \<open>round to nearest, ties to even, on a 53-bit significand\<close>
  "round53 n =
     (if n < 2 ^ 53 then n
      else let e = bitlen n - 53; q = n div 2 ^ e; r = n mod 2 ^ e; h = 2 ^ (e - 1)
           in (if h < r \<or> (r = h \<and> odd q) then Suc q else q) * 2 ^ e)"

definition toNumber :: "bool \<Rightarrow> nat \<Rightarrow> jsnum" where
  \<comment> \<open>the Number value of the integer with the given sign and magnitude\<close>
  "toNumber neg m =
     (let r = round53 m
      in if 2 ^ 1024 \<le> r then (if neg then NegInfinity else PosInfinity)
         else Num (if neg then - int r else int r))"

definition jsAdd1 :: "jsnum option \<Rightarrow> jsnum" where
  \<comment> \<open>\<^verbatim>\<open>x + 1\<close> for a number or \<^verbatim>\<open>undefined\<close>\<close>
  "jsAdd1 x =
     (case x of
        None \<Rightarrow> NaN
      | Some NaN \<Rightarrow> NaN
      | Some PosInfinity \<Rightarrow> PosInfinity
      | Some NegInfinity \<Rightarrow> NegInfinity
      | Some (Num i) \<Rightarrow> toNumber (i + 1 < 0) (nat \<bar>i + 1\<bar>))"

definition isNaN :: "jsnum \<Rightarrow> bool" where
  "isNaN x = (x = NaN)"

subsection \<open>Number to string\<close>

definition digitChar :: "nat \<Rightarrow> char" where
  "digitChar d = ''0123456789'' ! d"

fun showNat :: "nat \<Rightarrow> string" where
  "showNat n = (if n < 10 then [digitChar n] else showNat (n div 10) @ [digitChar (n mod 10)])"

declare showNat.simps [simp del]

fun ndigits :: "nat \<Rightarrow> nat" where
  "ndigits n = (if n < 10 then 1 else Suc (ndigits (n div 10)))"

declare ndigits.simps [simp del]

definition dist :: "nat \<Rightarrow> nat \<Rightarrow> nat" where
  "dist a b = (if a \<le> b then b - a else a - b)"

definition repr_cands :: "nat \<Rightarrow> nat \<Rightarrow> (nat \<times> nat) list" where
  \<comment> \<open>the pairs \<open>(s, n)\<close> with \<open>s\<close> of \<open>k\<close> digits whose value \<open>s * 10 ^ (n - k)\<close> is the double \<open>x\<close>\<close>
  "repr_cands x k =
     [(s, n). n \<leftarrow> [ndigits x, Suc (ndigits x)], k \<le> n,
              s \<leftarrow> [x div 10 ^ (n - k), Suc (x div 10 ^ (n - k))],
              10 ^ (k - 1) \<le> s, s < 10 ^ k, round53 (s * 10 ^ (n - k)) = x]"

definition closer :: "nat \<Rightarrow> nat \<Rightarrow> nat \<times> nat \<Rightarrow> nat \<times> nat \<Rightarrow> nat \<times> nat" where
  \<comment> \<open>of two candidates the one nearer to \<open>x\<close>, the even \<open>s\<close> on a tie\<close>
  "closer x k a b =
     (let da = dist (fst a * 10 ^ (snd a - k)) x; db = dist (fst b * 10 ^ (snd b - k)) x
      in if db < da \<or> (db = da \<and> odd (fst a) \<and> even (fst b)) then b else a)"

fun first_repr :: "nat \<Rightarrow> nat list \<Rightarrow> (nat \<times> nat \<times> nat) option" where
  "first_repr x [] = None"
| "first_repr x (k # ks) =
     (case repr_cands x k of
        [] \<Rightarrow> first_repr x ks
      | c # cs \<Rightarrow> (case foldl (closer x k) c cs of (s, n) \<Rightarrow> Some (k, s, n)))"

definition shortest_repr :: "nat \<Rightarrow> (nat \<times> nat \<times> nat) option" where
  \<comment> \<open>\<open>(k, s, n)\<close> with \<open>k\<close> as small as possible; seventeen digits always suffice\<close>
  "shortest_repr x = first_repr x [1, 2, 3, 4, 5, 6, 7, 8, 9, 10, 11, 12, 13, 14, 15, 16, 17]"

definition showDouble :: "nat \<Rightarrow> string" where
  \<comment> \<open>Number::toString on a positive integral double\<close>
  "showDouble x =
     (if x < 2 ^ 53 then showNat x
      else case shortest_repr x of
             None \<Rightarrow> showNat x
           | Some (k, s, n) \<Rightarrow>
               if n \<le> 21 then showNat s @ replicate (n - k) (CHR ''0'')
               else (if k = 1 then showNat s
                     else hd (showNat s) # CHR ''.'' # tl (showNat s))
                    @ ''e+'' @ showNat (n - 1))"

definition numToString :: "jsnum \<Rightarrow> string" where
  "numToString x =
     (case x of
        NaN \<Rightarrow> ''NaN''
      | PosInfinity \<Rightarrow> ''Infinity''
      | NegInfinity \<Rightarrow> ''-Infinity''
      | Num i \<Rightarrow> (if i < 0 then CHR ''-'' # showDouble (nat (- i)) else showDouble (nat i)))"

subsection \<open>parseInt with radix 10\<close>

definition isStrWhiteSpace :: "char \<Rightarrow> bool" where
  "isStrWhiteSpace c = (of_char c \<in> {9, 10, 11, 12, 13, 32, 160 :: nat})"

definition isDigit :: "char \<Rightarrow> bool" where
  "isDigit c = (c \<in> set ''0123456789'')"

definition digitVal :: "char \<Rightarrow> nat" where
  "digitVal c = of_char c - 48"

definition decimalValue :: "string \<Rightarrow> nat" where
  "decimalValue ds = foldl (\<lambda>acc c. 10 * acc + digitVal c) 0 ds"

definition parseInt10 :: "string \<Rightarrow> jsnum" where
  \<comment> \<open>\<^verbatim>\<open>parseInt(s, 10)\<close>: leading white space, an optional sign, then the longest run of digits\<close>
  "parseInt10 input =
     (let s = dropWhile isStrWhiteSpace input;
          neg = (s \<noteq> [] \<and> hd s = CHR ''-'');
          s' = (if s \<noteq> [] \<and> (hd s = CHR ''-'' \<or> hd s = CHR ''+'') then tl s else s);
          z = takeWhile isDigit s'
      in if z = [] then NaN else toNumber (neg \<and> decimalValue z \<noteq> 0) (decimalValue z))"

definition toStr :: "string option \<Rightarrow> string" where
  \<comment> \<open>ToString on a string or \<^verbatim>\<open>undefined\<close>\<close>
  "toStr v = (case v of None \<Rightarrow> ''undefined'' | Some s \<Rightarrow> s)"

section \<open>Helpers and specializations\<close>

fun split :: "char \<Rightarrow> string \<Rightarrow> string list" where
  \<comment> \<open>\<^verbatim>\<open>str.split(sep)\<close>; the program only splits at the one-character separator \<^verbatim>\<open>"."\<close>\<close>
  "split sep [] = [[]]"
| "split sep (c # cs) =
     (if c = sep then [] # split sep cs
      else (case split sep cs of [] \<Rightarrow> [[c]] | x # xs \<Rightarrow> (c # x) # xs))"

definition parseDecimal :: "string option \<Rightarrow> jsnum" where
  \<comment> \<open>\<^verbatim>\<open>parseInt(it, 10)\<close>; an \<^verbatim>\<open>undefined\<close> argument is converted to the string "undefined"\<close>
  "parseDecimal it = parseInt10 (toStr it)"

definition parseSemVer :: "string \<Rightarrow> jsnum list" where
  "parseSemVer str = map (\<lambda>it. parseDecimal (Some it)) (split (CHR ''.'') str)"

definition nth_opt :: "'a list \<Rightarrow> nat \<Rightarrow> 'a option" where
  \<comment> \<open>array destructuring: a missing element is \<^verbatim>\<open>undefined\<close>\<close>
  "nth_opt xs i = (if i < length xs then Some (xs ! i) else None)"

fun join :: "string \<Rightarrow> jsnum option list \<Rightarrow> string" where
  \<comment> \<open>\<^verbatim>\<open>list.join(sep)\<close> on numbers; an \<^verbatim>\<open>undefined\<close> element prints as the empty string\<close>
  "join sep [] = []"
| "join sep [x] = (case x of None \<Rightarrow> [] | Some n \<Rightarrow> numToString n)"
| "join sep (x # y # ys) = (case x of None \<Rightarrow> [] | Some n \<Rightarrow> numToString n) @ sep @ join sep (y # ys)"

definition incrementSemVer :: "string \<Rightarrow> string option \<Rightarrow> error + string" where
  "incrementSemVer current type =
     (let parts = parseSemVer current;
          major = nth_opt parts 0; minor = nth_opt parts 1; patch = nth_opt parts 2
      in if type = Some ''major'' then Inr (join ''.'' [Some (jsAdd1 major), Some (Num 0), Some (Num 0)])
         else if type = Some ''minor'' then Inr (join ''.'' [major, Some (jsAdd1 minor), Some (Num 0)])
         else if type = Some ''patch'' then Inr (join ''.'' [major, minor, Some (jsAdd1 patch)])
         else Inl (Error ([CHR 0x27] @ toStr type @ [CHR 0x27] @ '' is not a semver type'')))"


section \<open>Regular expressions\<close>

text \<open>
  A pattern is given by its matcher at one position: applied to the text from that
  position on, it returns the matched text and the capture groups, or nothing.  None of
  the program's patterns looks behind or anchors, so this determines them.  \<open>exec\<close> tries
  the positions from left to right, as \<^verbatim>\<open>RegExp.prototype.exec\<close> does on a fresh regular
  expression object (every call of the program evaluates its literal anew, so
  \<^verbatim>\<open>lastIndex\<close> is 0).
\<close>

type_synonym regexp = "string \<Rightarrow> (string \<times> string list) option"

record rmatch =
  before :: string
  matched :: string
  captures :: "string list"
  after :: string

fun exec_from :: "regexp \<Rightarrow> string \<Rightarrow> string \<Rightarrow> rmatch option" where
  "exec_from re pre [] =
     (case re [] of
        None \<Rightarrow> None
      | Some (m, caps) \<Rightarrow> Some \<lparr>before = pre, matched = m, captures = caps, after = []\<rparr>)"
| "exec_from re pre (c # cs) =
     (case re (c # cs) of
        None \<Rightarrow> exec_from re (pre @ [c]) cs
      | Some (m, caps) \<Rightarrow>
          Some \<lparr>before = pre, matched = m, captures = caps, after = drop (length m) (c # cs)\<rparr>)"

definition exec :: "regexp \<Rightarrow> string \<Rightarrow> rmatch option" where
  "exec re str = exec_from re [] str"

definition matchFirst :: "regexp \<Rightarrow> string \<Rightarrow> string option" where
  \<comment> \<open>\<^verbatim>\<open>[].concat(null)\<close> is the one-element array \<^verbatim>\<open>[null]\<close>, whose second element is
      \<^verbatim>\<open>undefined\<close>; \<^verbatim>\<open>[].concat(array)\<close> is the match array itself\<close>
  "matchFirst reg value =
     (case exec reg value of
        None \<Rightarrow> None
      | Some m \<Rightarrow> nth_opt (matched m # captures m) 1)"

subsection \<open>The patterns of the program\<close>

definition stripPrefix :: "string \<Rightarrow> string \<Rightarrow> string option" where
  "stripPrefix p s = (if take (length p) s = p then Some (drop (length p) s) else None)"

definition isLineTerminator :: "char \<Rightarrow> bool" where
  \<comment> \<open>the characters the dot does not match\<close>
  "isLineTerminator c = (c = CHR 0x0A \<or> c = CHR 0x0D)"

definition isQuote :: "char \<Rightarrow> bool" where
  "isQuote c = (c = CHR 0x22 \<or> c = CHR 0x27)"

fun upToLast :: "char \<Rightarrow> string \<Rightarrow> string option" where
  \<comment> \<open>the text before the last occurrence of the character: what a greedy \<^verbatim>\<open>.*\<close>
      followed by that character captures on backtracking\<close>
  "upToLast q [] = None"
| "upToLast q (x # xs) =
     (case upToLast q xs of
        Some p \<Rightarrow> Some (x # p)
      | None \<Rightarrow> if x = q then Some [] else None)"

definition digitsAfter :: "string \<Rightarrow> string \<Rightarrow> bool \<Rightarrow> (string \<times> string list) option" where
  \<comment> \<open>a literal, then \<^verbatim>\<open>(\d+)\<close>, then a semicolon if asked for\<close>
  "digitsAfter lit s semi =
     (case stripPrefix lit s of
        None \<Rightarrow> None
      | Some r \<Rightarrow>
          let ds = takeWhile isDigit r
          in if ds = [] then None
             else if semi then
               (if take 1 (dropWhile isDigit r) = '';'' then Some (lit @ ds @ '';'', [ds]) else None)
             else Some (lit @ ds, [ds]))"

definition codeRegex :: regexp where
  \<comment> \<open>\<^verbatim>\<open>/CURRENT_PROJECT_VERSION = (\d+);/g\<close>\<close>
  "codeRegex s = digitsAfter ''CURRENT_PROJECT_VERSION = '' s True"

definition versionRegex :: regexp where
  \<comment> \<open>\<^verbatim>\<open>/MARKETING_VERSION = (.*);/g\<close>\<close>
  "versionRegex s =
     (case stripPrefix ''MARKETING_VERSION = '' s of
        None \<Rightarrow> None
      | Some r \<Rightarrow>
          (case upToLast (CHR '';'') (takeWhile (\<lambda>c. \<not> isLineTerminator c) r) of
             None \<Rightarrow> None
           | Some cap \<Rightarrow> Some (''MARKETING_VERSION = '' @ cap @ '';'', [cap])))"

definition codeExp :: regexp where
  \<comment> \<open>\<^verbatim>\<open>/versionCode (\d+)/\<close>\<close>
  "codeExp s = digitsAfter ''versionCode '' s False"

definition quoted :: "char \<Rightarrow> string \<Rightarrow> string option" where
  \<comment> \<open>one alternative of the group: the quote, \<^verbatim>\<open>.*\<close>, the same quote\<close>
  "quoted q r =
     (case r of
        [] \<Rightarrow> None
      | c # cs \<Rightarrow>
          if c = q then
            (case upToLast q (takeWhile (\<lambda>c. \<not> isLineTerminator c) cs) of
               None \<Rightarrow> None
             | Some inner \<Rightarrow> Some (q # inner @ [q]))
          else None)"

definition nameExp :: regexp where
  \<comment> \<open>\<^verbatim>\<open>/versionName ('.*'|".*")/\<close>, the single-quoted alternative first\<close>
  "nameExp s =
     (case stripPrefix ''versionName '' s of
        None \<Rightarrow> None
      | Some r \<Rightarrow>
          (case quoted (CHR 0x27) r of
             Some cap \<Rightarrow> Some (''versionName '' @ cap, [cap])
           | None \<Rightarrow>
               (case quoted (CHR 0x22) r of
                  Some cap \<Rightarrow> Some (''versionName '' @ cap, [cap])
                | None \<Rightarrow> None)))"

definition quotes :: regexp where
  \<comment> \<open>\<^verbatim>\<open>/[^"']+/\<close>\<close>
  "quotes s = (let run = takeWhile (\<lambda>c. \<not> isQuote c) s in if run = [] then None else Some (run, []))"

definition anyQuote :: regexp where
  \<comment> \<open>\<^verbatim>\<open>/['"]/g\<close>\<close>
  "anyQuote s = (case s of [] \<Rightarrow> None | c # cs \<Rightarrow> if isQuote c then Some ([c], []) else None)"

subsection \<open>String.prototype.replace with a replacement string\<close>

fun getSubstitution :: "rmatch \<Rightarrow> string \<Rightarrow> string" where
  \<comment> \<open>the replacement template expanded: \<^verbatim>\<open>$$\<close>, \<^verbatim>\<open>$&\<close>, \<^verbatim>\<open>$`\<close>, \<^verbatim>\<open>$'\<close>, \<^verbatim>\<open>$n\<close>, \<^verbatim>\<open>$nn\<close>\<close>
  "getSubstitution m [] = []"
| "getSubstitution m [c] = [c]"
| "getSubstitution m (c # d # t) =
     (if c \<noteq> CHR ''$'' then c # getSubstitution m (d # t)
      else if d = CHR ''$'' then CHR ''$'' # getSubstitution m t
      else if d = CHR ''&'' then matched m @ getSubstitution m t
      else if d = CHR 0x60 then before m @ getSubstitution m t
      else if d = CHR 0x27 then after m @ getSubstitution m t
      else if isDigit d then
        (let one = (if 1 \<le> digitVal d \<and> digitVal d \<le> length (captures m)
                    then captures m ! (digitVal d - 1) else [c, d])
         in case t of
              [] \<Rightarrow> one
            | e # t' \<Rightarrow>
                if isDigit e \<and> 10 * digitVal d + digitVal e \<le> length (captures m) then
                  (if 1 \<le> 10 * digitVal d + digitVal e
                   then captures m ! (10 * digitVal d + digitVal e - 1) else [c, d, e])
                  @ getSubstitution m t'
                else one @ getSubstitution m (e # t'))
      else c # getSubstitution m (d # t))"

definition replaceFirst :: "regexp \<Rightarrow> string \<Rightarrow> string \<Rightarrow> string" where
  \<comment> \<open>\<^verbatim>\<open>str.replace(re, replacement)\<close> for a pattern without the global flag\<close>
  "replaceFirst re replacement str =
     (case exec re str of
        None \<Rightarrow> str
      | Some m \<Rightarrow> before m @ getSubstitution m replacement @ after m)"

function replaceAll_from :: "regexp \<Rightarrow> string \<Rightarrow> string \<Rightarrow> string \<Rightarrow> string" where
  "replaceAll_from re replacement pre [] =
     (case re [] of
        None \<Rightarrow> []
      | Some (m, caps) \<Rightarrow>
          getSubstitution \<lparr>before = pre, matched = m, captures = caps, after = []\<rparr> replacement)"
| "replaceAll_from re replacement pre (c # cs) =
     (case re (c # cs) of
        None \<Rightarrow> c # replaceAll_from re replacement (pre @ [c]) cs
      | Some (m, caps) \<Rightarrow>
          getSubstitution
            \<lparr>before = pre, matched = m, captures = caps, after = drop (length m) (c # cs)\<rparr>
            replacement
          @ (if m = [] then c # replaceAll_from re replacement (pre @ [c]) cs
             else replaceAll_from re replacement (pre @ take (length m) (c # cs))
                    (drop (length m) (c # cs))))"
  by pat_completeness auto
termination
  by (relation "measure (\<lambda>(re, replacement, pre, s). length s)") auto

definition replaceAll :: "regexp \<Rightarrow> string \<Rightarrow> string \<Rightarrow> string" where
  \<comment> \<open>\<^verbatim>\<open>str.replace(re, replacement)\<close> for a pattern with the global flag\<close>
  "replaceAll re replacement str = replaceAll_from re replacement [] str"

definition replace :: "(regexp \<times> bool) \<Rightarrow> string \<Rightarrow> string \<Rightarrow> string" where
  \<comment> \<open>the helper \<^verbatim>\<open>replace(expr, replacement, str)\<close>; the flag says whether \<open>expr\<close> is global\<close>
  "replace expr replacement str =
     (if snd expr then replaceAll (fst expr) replacement str
      else replaceFirst (fst expr) replacement str)"

section \<open>The file system and the console\<close>

text \<open>
  The world outside the process: the files by path, the paths that cannot be written,
  the calls of \<^verbatim>\<open>fs.writeFileSync\<close> in order, and the lines printed by
  \<^verbatim>\<open>console.log\<close>.
\<close>

record world =
  files :: "string \<rightharpoonup> string"
  locked :: "string set"
  written :: "(string \<times> string) list"
  console :: "string list"

definition readFileSync :: "world \<Rightarrow> string \<Rightarrow> error + string" where
  "readFileSync w fPath = (case files w fPath of None \<Rightarrow> Inl (FsError fPath) | Some c \<Rightarrow> Inr c)"

definition writeFile :: "string \<Rightarrow> string \<Rightarrow> world \<Rightarrow> (error + unit) \<times> world" where
  "writeFile fPath file w =
     (if fPath \<in> locked w then (Inl (FsError fPath), w)
      else (Inr (), w\<lparr>files := (files w)(fPath \<mapsto> file), written := written w @ [(fPath, file)]\<rparr>))"

section \<open>Managers\<close>

text \<open>
  \<^verbatim>\<open>BaseFileManager\<close>.  \<open>basePath\<close> is the outcome of the caller's path function, which
  may raise; \<open>content\<close> is the buffer, \<^term>\<open>None\<close> for \<^verbatim>\<open>null\<close>; \<open>resolved\<close>
  counts the calls of the path function made so far and is not part of the object.
\<close>

record manager =
  basePath :: "error + string"
  content :: "string option"
  resolved :: nat

definition read :: "manager \<Rightarrow> world \<Rightarrow> (error + string) \<times> manager" where
  "read m w =
     (case content m of
        Some c \<Rightarrow> (Inr c, m)
      | None \<Rightarrow>
          (case basePath m of
             Inl e \<Rightarrow> (Inl e, m\<lparr>resolved := Suc (resolved m)\<rparr>)
           | Inr fPath \<Rightarrow>
               (case readFileSync w fPath of
                  Inl e \<Rightarrow> (Inl e, m\<lparr>resolved := Suc (resolved m)\<rparr>)
                | Inr c \<Rightarrow> (Inr c, m\<lparr>content := Some c, resolved := Suc (resolved m)\<rparr>))))"

definition write_m :: "manager \<Rightarrow> world \<Rightarrow> (error + unit) \<times> manager \<times> world" where
  \<comment> \<open>the method \<^verbatim>\<open>write\<close>; \<^verbatim>\<open>if (this.content)\<close> holds for neither \<^verbatim>\<open>null\<close> nor the empty string\<close>
  "write_m m w =
     (case content m of
        None \<Rightarrow> (Inr (), m, w)
      | Some c \<Rightarrow>
          if c = [] then (Inr (), m, w)
          else (case basePath m of
                  Inl e \<Rightarrow> (Inl e, m\<lparr>resolved := Suc (resolved m)\<rparr>, w)
                | Inr fPath \<Rightarrow>
                    (case writeFile fPath c w of
                       (r, w') \<Rightarrow> (r, m\<lparr>resolved := Suc (resolved m)\<rparr>, w'))))"

subsection \<open>PBXManager\<close>

definition bumpProjectVersion :: "manager \<Rightarrow> world \<Rightarrow> (error + jsnum \<times> jsnum) \<times> manager" where
  "bumpProjectVersion m w =
     (case read m w of
        (Inl e, m') \<Rightarrow> (Inl e, m')
      | (Inr currentFile, m') \<Rightarrow>
          let currentCode = parseDecimal (matchFirst codeRegex currentFile);
              nextCode = jsAdd1 (Some currentCode)
          in (Inr (currentCode, nextCode),
              m'\<lparr>content := Some (replace (codeRegex, True)
                   (''CURRENT_PROJECT_VERSION = '' @ numToString nextCode @ '';'') currentFile)\<rparr>))"

definition setMarketingVersion ::
  "string \<Rightarrow> manager \<Rightarrow> world \<Rightarrow> (error + string option \<times> string) \<times> manager" where
  "setMarketingVersion nextVersion m w =
     (case read m w of
        (Inl e, m') \<Rightarrow> (Inl e, m')
      | (Inr currentFile, m') \<Rightarrow>
          let currentVersion = matchFirst versionRegex currentFile
          in (Inr (currentVersion, nextVersion),
              m'\<lparr>content := Some (replace (versionRegex, True)
                   (''MARKETING_VERSION = '' @ nextVersion @ '';'') currentFile)\<rparr>))"

definition getCurrentMarketingVersion :: "manager \<Rightarrow> world \<Rightarrow> (error + string option) \<times> manager" where
  "getCurrentMarketingVersion m w =
     (case read m w of
        (Inl e, m') \<Rightarrow> (Inl e, m')
      | (Inr currentFile, m') \<Rightarrow> (Inr (matchFirst versionRegex currentFile), m'))"

definition toNum :: "string option \<Rightarrow> jsnum" where
  \<comment> \<open>unary plus on the capture of \<^verbatim>\<open>(\d+)\<close>, a run of digits, or on \<^verbatim>\<open>undefined\<close>\<close>
  "toNum v = (case v of None \<Rightarrow> NaN | Some ds \<Rightarrow> toNumber False (decimalValue ds))"

definition getCurrentProjectVersion :: "manager \<Rightarrow> world \<Rightarrow> (error + jsnum) \<times> manager" where
  "getCurrentProjectVersion m w =
     (case read m w of
        (Inl e, m') \<Rightarrow> (Inl e, m')
      | (Inr currentFile, m') \<Rightarrow> (Inr (toNum (matchFirst codeRegex currentFile)), m'))"

subsection \<open>BuildGradleManager\<close>

definition bumpCode :: "manager \<Rightarrow> world \<Rightarrow> (error + jsnum \<times> jsnum) \<times> manager" where
  "bumpCode m w =
     (case read m w of
        (Inl e, m') \<Rightarrow> (Inl e, m')
      | (Inr currentFile, m') \<Rightarrow>
          let versionMatch = matchFirst codeExp currentFile;
              current = parseDecimal versionMatch;
              next = jsAdd1 (Some current)
          in if isNaN next then
               (Inl (Error (''Invalid versionCode version parsed ('' @ toStr versionMatch @ '')'')), m')
             else
               (Inr (current, next),
                m'\<lparr>content := Some (replace (codeExp, False)
                     (''versionCode '' @ numToString next) currentFile)\<rparr>))"

definition setVersionName ::
  "string \<Rightarrow> manager \<Rightarrow> world \<Rightarrow> (error + string \<times> string) \<times> manager" where
  "setVersionName next m w =
     (case read m w of
        (Inl e, m') \<Rightarrow> (Inl e, m')
      | (Inr currentFile, m') \<Rightarrow>
          (case matchFirst nameExp currentFile of
             None \<Rightarrow> (Inl (TypeError ''replace''), m')
           | Some current \<Rightarrow>
               let newVersionName = replace (quotes, False) next current
               in (Inr (current, next),
                   m'\<lparr>content := Some (replace (nameExp, False)
                        (''versionName '' @ newVersionName) currentFile)\<rparr>)))"

definition getVersionName :: "manager \<Rightarrow> world \<Rightarrow> (error + string) \<times> manager" where
  "getVersionName m w =
     (case read m w of
        (Inl e, m') \<Rightarrow> (Inl e, m')
      | (Inr currentFile, m') \<Rightarrow>
          (case matchFirst nameExp currentFile of
             None \<Rightarrow> (Inl (TypeError ''replace''), m')
           | Some v \<Rightarrow> (Inr (replace (anyQuote, True) [] v), m')))"

definition getVersionCode :: "manager \<Rightarrow> world \<Rightarrow> (error + jsnum) \<times> manager" where
  "getVersionCode m w =
     (case read m w of
        (Inl e, m') \<Rightarrow> (Inl e, m')
      | (Inr currentFile, m') \<Rightarrow> (Inr (parseDecimal (matchFirst codeExp currentFile)), m'))"

subsection \<open>Sequences of operations on one file manager\<close>

datatype file_op =
    Read | Write
  | BumpProjectVersion | SetMarketingVersion string
  | GetCurrentMarketingVersion | GetCurrentProjectVersion
  | BumpCode | SetVersionName string | GetVersionName | GetVersionCode

definition discard :: "(error + 'a) \<times> manager \<Rightarrow> world \<Rightarrow> (error + unit) \<times> manager \<times> world" where
  "discard r w = (case r of (Inl e, m) \<Rightarrow> (Inl e, m, w) | (Inr v, m) \<Rightarrow> (Inr (), m, w))"

fun apply_op :: "file_op \<Rightarrow> manager \<Rightarrow> world \<Rightarrow> (error + unit) \<times> manager \<times> world" where
  "apply_op Read m w = discard (read m w) w"
| "apply_op Write m w = write_m m w"
| "apply_op BumpProjectVersion m w = discard (bumpProjectVersion m w) w"
| "apply_op (SetMarketingVersion v) m w = discard (setMarketingVersion v m w) w"
| "apply_op GetCurrentMarketingVersion m w = discard (getCurrentMarketingVersion m w) w"
| "apply_op GetCurrentProjectVersion m w = discard (getCurrentProjectVersion m w) w"
| "apply_op BumpCode m w = discard (bumpCode m w) w"
| "apply_op (SetVersionName v) m w = discard (setVersionName v m w) w"
| "apply_op GetVersionName m w = discard (getVersionName m w) w"
| "apply_op GetVersionCode m w = discard (getVersionCode m w) w"

fun apply_ops :: "file_op list \<Rightarrow> manager \<Rightarrow> world \<Rightarrow> (error + unit) \<times> manager \<times> world" where
  \<comment> \<open>the calls in order; an exception ends the sequence, nothing in the program catches\<close>
  "apply_ops [] m w = (Inr (), m, w)"
| "apply_ops (x # xs) m w =
     (case apply_op x m w of
        (Inl e, m', w') \<Rightarrow> (Inl e, m', w')
      | (Inr u, m', w') \<Rightarrow> apply_ops xs m' w')"

definition newManager :: "error + string \<Rightarrow> manager" where
  "newManager p = \<lparr>basePath = p, content = None, resolved = 0\<rparr>"

subsection \<open>PackageJSONManager\<close>

text \<open>
  The manifest at its declared type: an object with a \<open>version\<close> member (absent members
  read as \<^verbatim>\<open>undefined\<close>) and its other members.  \<^verbatim>\<open>JSON.parse\<close>, \<^verbatim>\<open>JSON.stringify\<close>,
  \<^verbatim>\<open>require.resolve\<close> and \<^verbatim>\<open>path.join\<close> belong to the runtime and are parameters of the
  model; \<^verbatim>\<open>JSON.parse\<close> may return \<^verbatim>\<open>null\<close>, here \<^term>\<open>None\<close>.
\<close>

record manifest =
  version :: "string option"
  members :: "(string \<times> string) list"

record version_info =
  android_versionName :: string
  android_versionCode :: jsnum
  ios_versionName :: "string option"
  ios_versionCode :: jsnum

record runtime =
  path_join :: "string \<Rightarrow> string \<Rightarrow> string"
  require_resolve :: "string \<Rightarrow> error + string"
  JSON_parse :: "string \<Rightarrow> error + manifest option"
  JSON_stringify :: "manifest \<Rightarrow> string"
  JSON_stringify_info :: "version_info \<Rightarrow> string"

record package_manager =
  pkgPath :: string
  pkgContent :: "manifest option"
  pkgResolved :: nat

definition readPackage ::
  "runtime \<Rightarrow> package_manager \<Rightarrow> world \<Rightarrow> (error + manifest option) \<times> package_manager" where
  "readPackage rt m w =
     (case pkgContent m of
        Some c \<Rightarrow> (Inr (Some c), m)
      | None \<Rightarrow>
          (case require_resolve rt (pkgPath m) of
             Inl e \<Rightarrow> (Inl e, m\<lparr>pkgResolved := Suc (pkgResolved m)\<rparr>)
           | Inr fPath \<Rightarrow>
               (case readFileSync w fPath of
                  Inl e \<Rightarrow> (Inl e, m\<lparr>pkgResolved := Suc (pkgResolved m)\<rparr>)
                | Inr raw \<Rightarrow>
                    (case JSON_parse rt raw of
                       Inl e \<Rightarrow> (Inl e, m\<lparr>pkgResolved := Suc (pkgResolved m)\<rparr>)
                     | Inr c \<Rightarrow> (Inr c, m\<lparr>pkgContent := c, pkgResolved := Suc (pkgResolved m)\<rparr>)))))"

definition writePackage ::
  "runtime \<Rightarrow> package_manager \<Rightarrow> world \<Rightarrow> (error + unit) \<times> package_manager \<times> world" where
  "writePackage rt m w =
     (case pkgContent m of
        None \<Rightarrow> (Inr (), m, w)
      | Some c \<Rightarrow>
          (case writeFile (pkgPath m) (JSON_stringify rt c) w of
             (r, w') \<Rightarrow> (r, m\<lparr>pkgResolved := Suc (pkgResolved m)\<rparr>, w')))"

definition getVersion ::
  "runtime \<Rightarrow> package_manager \<Rightarrow> world \<Rightarrow> (error + string option) \<times> package_manager" where
  "getVersion rt m w =
     (case readPackage rt m w of
        (Inl e, m') \<Rightarrow> (Inl e, m')
      | (Inr None, m') \<Rightarrow> (Inl (TypeError ''version''), m')
      | (Inr (Some c), m') \<Rightarrow> (Inr (version c), m'))"

definition setVersion ::
  "runtime \<Rightarrow> string \<Rightarrow> package_manager \<Rightarrow> world
     \<Rightarrow> (error + string \<times> string option) \<times> package_manager" where
  "setVersion rt next m w =
     (case getVersion rt m w of
        (Inl e, m') \<Rightarrow> (Inl e, m')
      | (Inr current, m') \<Rightarrow>
          (Inr (next, current),
           m'\<lparr>pkgContent := map_option (\<lambda>c. c\<lparr>version := Some next\<rparr>) (pkgContent m')\<rparr>))"

section \<open>ProjectFilesManager\<close>

record configs =
  type :: "string option"
  semver :: "string option"
  skipSemverFor :: "string list"
  skipCodeFor :: "string list"
  versionFile :: "string option"
  root :: string
  pbxprojPath :: "error + string"
  buildGradlePath :: "error + string"

text \<open>The three managers of a \<^verbatim>\<open>ProjectFilesManager\<close>, together with the world.\<close>

record state =
  pbx :: manager
  buildGradle :: manager
  packageJSON :: package_manager
  world :: world

type_synonym 'a action = "state \<Rightarrow> (error + 'a) \<times> state"

definition bind :: "'a action \<Rightarrow> ('a \<Rightarrow> 'b action) \<Rightarrow> 'b action" where
  \<comment> \<open>one statement after another; an exception skips the rest\<close>
  "bind f g s = (case f s of (Inl e, s') \<Rightarrow> (Inl e, s') | (Inr a, s') \<Rightarrow> g a s')"

definition proceed :: "unit action" where
  "proceed s = (Inr (), s)"

definition throw :: "error \<Rightarrow> 'a action" where
  "throw e s = (Inl e, s)"

definition onPbx :: "(manager \<Rightarrow> world \<Rightarrow> (error + 'a) \<times> manager) \<Rightarrow> 'a action" where
  "onPbx f s = (case f (pbx s) (world s) of (r, m) \<Rightarrow> (r, s\<lparr>pbx := m\<rparr>))"

definition onBuildGradle :: "(manager \<Rightarrow> world \<Rightarrow> (error + 'a) \<times> manager) \<Rightarrow> 'a action" where
  "onBuildGradle f s = (case f (buildGradle s) (world s) of (r, m) \<Rightarrow> (r, s\<lparr>buildGradle := m\<rparr>))"

definition onPackageJSON ::
  "(package_manager \<Rightarrow> world \<Rightarrow> (error + 'a) \<times> package_manager) \<Rightarrow> 'a action" where
  "onPackageJSON f s = (case f (packageJSON s) (world s) of (r, m) \<Rightarrow> (r, s\<lparr>packageJSON := m\<rparr>))"

definition consoleLog :: "string \<Rightarrow> unit action" where
  "consoleLog line s = (Inr (), s\<lparr>world := (world s)\<lparr>console := console (world s) @ [line]\<rparr>\<rparr>)"

definition apiVersioner :: "runtime \<Rightarrow> configs \<Rightarrow> world \<Rightarrow> state" where
  \<comment> \<open>\<^verbatim>\<open>new ProjectFilesManager(configs)\<close> in the given world\<close>
  "apiVersioner rt cfg w =
     \<lparr>pbx = newManager (pbxprojPath cfg),
      buildGradle = newManager (buildGradlePath cfg),
      packageJSON = \<lparr>pkgPath = path_join rt (root cfg) ''package.json'',
                     pkgContent = None, pkgResolved = 0\<rparr>,
      world = w\<rparr>"

definition syncSemver :: "runtime \<Rightarrow> configs \<Rightarrow> string \<Rightarrow> unit action" where
  "syncSemver rt cfg semverString =
     bind (if ''ios'' \<notin> set (skipSemverFor cfg) then
             bind (onPbx (setMarketingVersion semverString)) (\<lambda>(pbxCurrent, pbxNext).
               consoleLog (''iOS project.pbxproj version: '' @ toStr pbxCurrent @ '' -> '' @ pbxNext))
           else proceed) (\<lambda>_.
     bind (if ''android'' \<notin> set (skipSemverFor cfg) then
             bind (onBuildGradle (setVersionName semverString)) (\<lambda>(gradleCurrent, gradleNext).
               consoleLog (''Android gradle.build version: '' @ gradleCurrent @ '' -> '' @ gradleNext))
           else proceed) (\<lambda>_.
     bind (onPackageJSON (setVersion rt semverString)) (\<lambda>(packageNext, packageCurrent).
       consoleLog (''package.json: '' @ toStr packageCurrent @ '' -> '' @ packageNext))))"

definition bumpCodes :: "configs \<Rightarrow> unit action" where
  "bumpCodes cfg =
     bind (if ''ios'' \<notin> set (skipCodeFor cfg) then
             bind (onPbx bumpProjectVersion) (\<lambda>(pbxCurrent, pbxNext).
               consoleLog (''iOS project.pbxproj code: '' @ numToString pbxCurrent @ '' -> ''
                           @ numToString pbxNext))
           else proceed) (\<lambda>_.
     if ''android'' \<notin> set (skipCodeFor cfg) then
       bind (onBuildGradle bumpCode) (\<lambda>(gradleCurrent, gradleNext).
         consoleLog (''Android build.gradle code: '' @ numToString gradleCurrent @ '' -> ''
                     @ numToString gradleNext))
     else proceed)"

definition falsy :: "string option \<Rightarrow> bool" where
  \<comment> \<open>\<^verbatim>\<open>!x\<close> on a string or \<^verbatim>\<open>undefined\<close>\<close>
  "falsy x = (x = None \<or> x = Some [])"

definition nextVersion :: "configs \<Rightarrow> string option \<Rightarrow> error + string" where
  \<comment> \<open>\<^verbatim>\<open>semver ?? incrementSemVer(current, type ?? "minor")\<close>; splitting an
      \<^verbatim>\<open>undefined\<close> current version raises\<close>
  "nextVersion cfg current =
     (case semver cfg of
        Some v \<Rightarrow> Inr v
      | None \<Rightarrow>
          (case current of
             None \<Rightarrow> Inl (TypeError ''split'')
           | Some c \<Rightarrow>
               incrementSemVer c (case type cfg of None \<Rightarrow> Some ''minor'' | Some t \<Rightarrow> Some t)))"

definition dryRun :: "runtime \<Rightarrow> configs \<Rightarrow> unit action" where
  "dryRun rt cfg =
     bind (onPackageJSON (getVersion rt)) (\<lambda>current.
     bind (\<lambda>s. (nextVersion cfg current, s)) (\<lambda>next.
     bind (if ''all'' \<notin> set (skipCodeFor cfg) then bumpCodes cfg else proceed) (\<lambda>_.
     if ''all'' \<notin> set (skipSemverFor cfg) then
       (if falsy (type cfg) then throw (Error ''SemVer type not specified'')
        else syncSemver rt cfg next)
     else proceed)))"

definition onWorld :: "(world \<Rightarrow> (error + 'a) \<times> world) \<Rightarrow> 'a action" where
  "onWorld f s = (case f (world s) of (r, w) \<Rightarrow> (r, s\<lparr>world := w\<rparr>))"

definition saveVersionFile :: "runtime \<Rightarrow> configs \<Rightarrow> string \<Rightarrow> unit action" where
  "saveVersionFile rt cfg vFile =
     bind (onBuildGradle getVersionName) (\<lambda>aName.
     bind (onBuildGradle getVersionCode) (\<lambda>aCode.
     bind (onPbx getCurrentMarketingVersion) (\<lambda>iName.
     bind (onPbx getCurrentProjectVersion) (\<lambda>iCode.
     bind (onWorld (writeFile (path_join rt (root cfg) vFile)
             (JSON_stringify_info rt
                \<lparr>android_versionName = aName, android_versionCode = aCode,
                 ios_versionName = iName, ios_versionCode = iCode\<rparr>))) (\<lambda>_.
     consoleLog (''Version file saved at: '' @ path_join rt (root cfg) vFile))))))"

definition writePbx :: "unit action" where
  "writePbx s = (case write_m (pbx s) (world s) of (r, m, w) \<Rightarrow> (r, s\<lparr>pbx := m, world := w\<rparr>))"

definition writeBuildGradle :: "unit action" where
  "writeBuildGradle s =
     (case write_m (buildGradle s) (world s) of (r, m, w) \<Rightarrow> (r, s\<lparr>buildGradle := m, world := w\<rparr>))"

definition writePackageJSON :: "runtime \<Rightarrow> unit action" where
  "writePackageJSON rt s =
     (case writePackage rt (packageJSON s) (world s) of
        (r, m, w) \<Rightarrow> (r, s\<lparr>packageJSON := m, world := w\<rparr>))"

definition run :: "runtime \<Rightarrow> configs \<Rightarrow> unit action" where
  "run rt cfg =
     bind (dryRun rt cfg) (\<lambda>_.
     bind writePbx (\<lambda>_.
     bind writeBuildGradle (\<lambda>_.
     bind (writePackageJSON rt) (\<lambda>_.
     (case versionFile cfg of
        None \<Rightarrow> proceed
      | Some vFile \<Rightarrow> if vFile = [] then proceed else saveVersionFile rt cfg vFile)))))"

section \<open>Notions used in the statements\<close>

definition showInt :: "int \<Rightarrow> string" where
  \<comment> \<open>the decimal numeral of an integer, the notation the version strings are written in\<close>
  "showInt i = (if i < 0 then CHR ''-'' # showNat (nat (- i)) else showNat (nat i))"

definition isSafeInteger :: "int \<Rightarrow> bool" where
  \<comment> \<open>\<^verbatim>\<open>Number.isSafeInteger\<close>: magnitude at most \<open>2 ^ 53 - 1\<close>\<close>
  "isSafeInteger i = (\<bar>i\<bar> \<le> 2 ^ 53 - 1)"

section \<open>Properties of actions\<close>

definition reads_then :: "(manager \<Rightarrow> world \<Rightarrow> (error + 'a) \<times> manager) \<Rightarrow> bool" where
  \<comment> \<open>the shape of every method but \<open>write\<close>: read first, stop if that raises, and leave a
      buffer behind on return; the path function is called by the read only\<close>
  "reads_then f =
     (\<forall>m w. basePath (snd (f m w)) = basePath m
          \<and> resolved (snd (f m w)) = resolved m + (if content m = None then 1 else 0)
          \<and> (\<forall>v. fst (f m w) = Inr v \<longrightarrow> content (snd (f m w)) \<noteq> None))"

definition keeps_disk :: "'a action \<Rightarrow> bool" where
  \<comment> \<open>the action writes no file: the files, the locks and the list of writes stay\<close>
  "keeps_disk f =
     (\<forall>s. files (world (snd (f s))) = files (world s)
        \<and> locked (world (snd (f s))) = locked (world s)
        \<and> written (world (snd (f s))) = written (world s))"

section \<open>An example project\<close>

text \<open>
  The project of the README: manifest version 1.10.6, iOS build 24, Android build 23.
  The runtime functions are fixed to their values on this project.
\<close>

definition example_manifest_text :: string where
  "example_manifest_text =
     ''{'' @ [CHR 0x22] @ ''version'' @ [CHR 0x22] @ '': '' @ [CHR 0x22] @ ''1.10.6'' @ [CHR 0x22] @ ''}''"

definition example_runtime :: runtime where
  "example_runtime =
     \<lparr>path_join = (\<lambda>a b. a @ ''/'' @ b),
      require_resolve = Inr,
      JSON_parse = (\<lambda>raw. if raw = example_manifest_text
                           then Inr (Some \<lparr>version = Some ''1.10.6'', members = []\<rparr>)
                           else Inl SyntaxError),
      JSON_stringify = (\<lambda>c. ''{'' @ [CHR 0x0A] @ ''  '' @ [CHR 0x22] @ ''version'' @ [CHR 0x22] @ '': ''
                             @ [CHR 0x22] @ toStr (version c) @ [CHR 0x22] @ [CHR 0x0A] @ ''}''),
      JSON_stringify_info = (\<lambda>i. ''{}'')\<rparr>"

definition example_world :: world where
  "example_world =
     \<lparr>files = [''app/package.json'' \<mapsto> example_manifest_text,
               ''ios/project.pbxproj'' \<mapsto>
                 ''CURRENT_PROJECT_VERSION = 24; MARKETING_VERSION = 1.10.6;'',
               ''android/build.gradle'' \<mapsto>
                 ''versionCode 23 versionName '' @ [CHR 0x22] @ ''1.10.6'' @ [CHR 0x22]],
      locked = {}, written = [], console = []\<rparr>"

definition example_configs :: configs where
  "example_configs =
     \<lparr>type = Some ''patch'', semver = None, skipSemverFor = [], skipCodeFor = [],
      versionFile = None, root = ''app'',
      pbxprojPath = Inr ''ios/project.pbxproj'', buildGradlePath = Inr ''android/build.gradle''\<rparr>"

definition example_state :: state where
  "example_state = apiVersioner example_runtime example_configs example_world"

section \<open>Facts about numbers\<close>

lemma round53_small: "n < 2 ^ 53 \<Longrightarrow> round53 n = n"
  by (simp add: round53_def)

lemma round53_two53: "round53 9007199254740992 = 9007199254740992"
  by (simp add: round53_def bitlen.simps)

lemma toNumber_exact: "m \<le> 2 ^ 53 \<Longrightarrow> toNumber neg m = Num (if neg then - int m else int m)"
proof (cases "m < 2 ^ 53")
  case True
  then show ?thesis by (simp add: toNumber_def round53_small)
next
  case False
  assume "m \<le> 2 ^ 53"
  with False have "m = 9007199254740992" by simp
  then show ?thesis by (simp add: toNumber_def round53_two53)
qed

lemma jsAdd1_safe: "isSafeInteger i \<Longrightarrow> jsAdd1 (Some (Num i)) = Num (i + 1)"
proof -
  assume "isSafeInteger i"
  then have b: "nat \<bar>i + 1\<bar> \<le> 2 ^ 53" by (simp add: isSafeInteger_def)
  show ?thesis using toNumber_exact [OF b, of "i + 1 < 0"] by (simp add: jsAdd1_def)
qed

lemma shortest_repr_two53: "shortest_repr 9007199254740992 = Some (16, 9007199254740992, 16)"
  by (simp add: shortest_repr_def repr_cands_def closer_def dist_def ndigits.simps
      round53_def bitlen.simps)

lemma showDouble_two53: "showDouble 9007199254740992 = showNat 9007199254740992"
  by (simp add: showDouble_def shortest_repr_two53)

lemma showDouble_exact: "m \<le> 2 ^ 53 \<Longrightarrow> showDouble m = showNat m"
proof (cases "m < 2 ^ 53")
  case True
  then show ?thesis by (simp add: showDouble_def)
next
  case False
  assume "m \<le> 2 ^ 53"
  with False have "m = 9007199254740992" by simp
  then show ?thesis by (simp add: showDouble_two53)
qed

lemma numToString_exact: "\<bar>i\<bar> \<le> 2 ^ 53 \<Longrightarrow> numToString (Num i) = showInt i"
proof -
  assume a: "\<bar>i\<bar> \<le> 2 ^ 53"
  then have "nat (- i) \<le> 2 ^ 53" and "nat i \<le> 2 ^ 53" by simp_all
  then show ?thesis by (simp add: numToString_def showInt_def showDouble_exact)
qed

lemma toNumber_not_NaN: "toNumber neg n \<noteq> NaN"
  by (simp add: toNumber_def Let_def)

lemma jsAdd1_not_NaN: "x \<noteq> NaN \<Longrightarrow> jsAdd1 (Some x) \<noteq> NaN"
  by (cases x) (simp_all add: jsAdd1_def toNumber_not_NaN)

lemma isDigit_not_space: "isDigit c \<Longrightarrow> \<not> isStrWhiteSpace c \<and> c \<noteq> CHR ''-'' \<and> c \<noteq> CHR ''+''"
  by (auto simp: isDigit_def isStrWhiteSpace_def)

lemma parseInt10_digits:
  assumes "ds \<noteq> []" and "\<forall>c\<in>set ds. isDigit c"
  shows "parseInt10 ds = toNumber False (decimalValue ds)"
proof -
  obtain c cs where ds: "ds = c # cs" using assms(1) by (cases ds) auto
  then have c: "isDigit c" using assms(2) by simp
  have t: "takeWhile isDigit ds = ds" using assms(2) by (simp add: takeWhile_eq_all_conv)
  show ?thesis
    using isDigit_not_space [OF c] t ds by (simp add: parseInt10_def Let_def)
qed

lemma digitChar_isDigit: "d < 10 \<Longrightarrow> isDigit (digitChar d)"
proof -
  assume "d < 10"
  then have "d < length ''0123456789''" by simp
  then have "''0123456789'' ! d \<in> set ''0123456789''" by (rule nth_mem)
  then show ?thesis unfolding isDigit_def digitChar_def .
qed

lemma digitVal_digitChar: "d < 10 \<Longrightarrow> digitVal (digitChar d) = d"
proof -
  assume "d < 10"
  then have "d \<in> {0, 1, 2, 3, 4, 5, 6, 7, 8, 9}" by auto
  then show ?thesis by (auto simp: digitVal_def digitChar_def)
qed

lemma showNat_digits: "showNat n \<noteq> [] \<and> (\<forall>c\<in>set (showNat n). isDigit c)"
proof (induction n rule: showNat.induct)
  case (1 n)
  show ?case
  proof (cases "n < 10")
    case True
    then show ?thesis by (simp add: showNat.simps [of n] digitChar_isDigit)
  next
    case False
    then show ?thesis using 1 by (simp add: showNat.simps [of n] digitChar_isDigit)
  qed
qed

lemma decimalValue_snoc: "decimalValue (ds @ [c]) = 10 * decimalValue ds + digitVal c"
  by (simp add: decimalValue_def)

lemma decimalValue_showNat: "decimalValue (showNat n) = n"
proof (induction n rule: showNat.induct)
  case (1 n)
  show ?case
  proof (cases "n < 10")
    case True
    then show ?thesis by (simp add: showNat.simps [of n] decimalValue_def digitVal_digitChar)
  next
    case False
    then have "decimalValue (showNat (n div 10)) = n div 10" using 1 by simp
    then show ?thesis using False
      by (simp add: showNat.simps [of n] decimalValue_snoc digitVal_digitChar)
  qed
qed

lemma isDigit_not_dot: "isDigit c \<Longrightarrow> c \<noteq> CHR ''.''"
  by (auto simp: isDigit_def)

lemma parseInt10_showNat:
  "n \<le> 2 ^ 53 \<Longrightarrow> parseInt10 (showNat n) = Num (int n) \<and> CHR ''.'' \<notin> set (showNat n)"
  using showNat_digits [of n] parseInt10_digits [of "showNat n"] toNumber_exact [of n False]
    isDigit_not_dot
  by (auto simp: decimalValue_showNat)

section \<open>Facts about splitting\<close>

lemma split_no_sep: "sep \<notin> set s \<Longrightarrow> split sep s = [s]"
  by (induction s) auto

lemma split_append_sep: "sep \<notin> set a \<Longrightarrow> split sep (a @ sep # r) = a # split sep r"
  by (induction a) auto

lemma parseSemVer_three:
  assumes "CHR ''.'' \<notin> set a" and "CHR ''.'' \<notin> set b" and "CHR ''.'' \<notin> set c"
  shows "parseSemVer (a @ ''.'' @ b @ ''.'' @ c) = [parseInt10 a, parseInt10 b, parseInt10 c]"
  using assms
  by (simp add: parseSemVer_def parseDecimal_def toStr_def split_append_sep split_no_sep)

section \<open>SemVer increment\<close>

text \<open>
  C8.  Whatever the version string, a release kind that is none of \<^verbatim>\<open>"major"\<close>,
  \<^verbatim>\<open>"minor"\<close>, \<^verbatim>\<open>"patch"\<close> (an unrecognized token or \<^verbatim>\<open>undefined\<close>) makes
  \<open>incrementSemVer\<close> raise the error \<^verbatim>\<open>'<kind>' is not a semver type\<close>; no version
  string is returned.
\<close>

theorem incrementSemVer_invalid_kind:
  "kind \<notin> {Some ''major'', Some ''minor'', Some ''patch''} \<Longrightarrow>
   incrementSemVer current kind =
     Inl (Error ([CHR 0x27] @ toStr kind @ [CHR 0x27] @ '' is not a semver type''))"
  by (simp add: incrementSemVer_def Let_def)

theorem incrementSemVer_invalid_kind_witness:
  "incrementSemVer ''1.2.3'' None =
     Inl (Error ([CHR 0x27] @ ''undefined'' @ [CHR 0x27] @ '' is not a semver type''))"
  using incrementSemVer_invalid_kind [of None "''1.2.3''"] by (simp add: toStr_def)

text \<open>
  C1, for safe integers.  Let the version string be \<open>a.b.c\<close>, the three components free of
  dots and parsed by \<^verbatim>\<open>parseInt\<close> to safe integers \<open>x\<close>, \<open>y\<close>, \<open>z\<close> (magnitude at
  most \<open>2 ^ 53 - 1\<close>).  Then \<open>incrementSemVer\<close> returns \<open>(x+1).0.0\<close> for major,
  \<open>x.(y+1).0\<close> for minor and \<open>x.y.(z+1)\<close> for patch, every number in decimal notation.  The decimal numeral of every natural number up to
  \<open>2 ^ 53\<close> is such a component (\<open>parseInt10_showNat\<close>).
\<close>

theorem incrementSemVer_safe:
  assumes "CHR ''.'' \<notin> set a" and "CHR ''.'' \<notin> set b" and "CHR ''.'' \<notin> set c"
    and "parseInt10 a = Num x" and "parseInt10 b = Num y" and "parseInt10 c = Num z"
    and "isSafeInteger x" and "isSafeInteger y" and "isSafeInteger z"
  shows "incrementSemVer (a @ ''.'' @ b @ ''.'' @ c) (Some ''major'') =
           Inr (showInt (x + 1) @ ''.'' @ showInt 0 @ ''.'' @ showInt 0)
       \<and> incrementSemVer (a @ ''.'' @ b @ ''.'' @ c) (Some ''minor'') =
           Inr (showInt x @ ''.'' @ showInt (y + 1) @ ''.'' @ showInt 0)
       \<and> incrementSemVer (a @ ''.'' @ b @ ''.'' @ c) (Some ''patch'') =
           Inr (showInt x @ ''.'' @ showInt y @ ''.'' @ showInt (z + 1))"
proof -
  have p: "parseSemVer (a @ CHR ''.'' # b @ CHR ''.'' # c) = [Num x, Num y, Num z]"
    using assms parseSemVer_three [of a b c] by simp
  have s: "\<And>i. isSafeInteger i \<Longrightarrow> numToString (Num i) = showInt i"
    "\<And>i. isSafeInteger i \<Longrightarrow> numToString (Num (i + 1)) = showInt (i + 1)"
    by (rule numToString_exact, simp add: isSafeInteger_def)+
  have z: "numToString (Num 0) = showInt 0"
    by (rule numToString_exact) simp
  show ?thesis
    using assms(7-9)
    by (simp add: incrementSemVer_def p nth_opt_def jsAdd1_safe s z Let_def)
qed

theorem incrementSemVer_safe_witness:
  "incrementSemVer ''1.10.6'' (Some ''major'') = Inr ''2.0.0''
 \<and> incrementSemVer ''1.10.6'' (Some ''minor'') = Inr ''1.11.0''
 \<and> incrementSemVer ''1.10.6'' (Some ''patch'') = Inr ''1.10.7''"
proof -
  have h: "parseInt10 ''1'' = Num 1" "parseInt10 ''10'' = Num 10" "parseInt10 ''6'' = Num 6"
    by (simp_all add: parseInt10_def isStrWhiteSpace_def isDigit_def decimalValue_def
        digitVal_def toNumber_exact)
  have g: "isSafeInteger 1" "isSafeInteger 10" "isSafeInteger 6"
    by (simp_all add: isSafeInteger_def)
  show ?thesis
    using incrementSemVer_safe [of "''1''" "''10''" "''6''" 1 10 6] h g
    by (simp add: showInt_def showNat.simps digitChar_def)
qed

theorem incrementSemVer_beyond_safe_counterexample:
  "incrementSemVer ''9007199254740992.0.0'' (Some ''major'') = Inr ''9007199254740992.0.0''"
  by (simp add: incrementSemVer_def parseSemVer_def parseDecimal_def toStr_def nth_opt_def
      parseInt10_def isStrWhiteSpace_def isDigit_def decimalValue_def digitVal_def
      jsAdd1_def toNumber_def round53_def bitlen.simps numToString_def showDouble_def
      shortest_repr_two53 showNat.simps digitChar_def)

section \<open>The buffer of a file manager\<close>

lemma read_resolved:
  "resolved (snd (read m w)) = resolved m + (if content m = None then 1 else 0)"
  by (simp add: read_def split: option.splits sum.splits)

lemma read_basePath: "basePath (snd (read m w)) = basePath m"
  by (simp add: read_def split: option.splits sum.splits)

lemma read_content: "read m w = (Inr c, m') \<Longrightarrow> content m' = Some c"
  by (auto simp: read_def split: option.splits sum.splits)

lemma read_loaded: "content m = Some c \<Longrightarrow> read m w = (Inr c, m)"
  by (simp add: read_def)

lemma read_failed: "read m w = (Inl e, m') \<Longrightarrow> content m = None"
  by (auto simp: read_def split: option.splits sum.splits)

lemma reads_thenI:
  assumes "\<And>m w. f m w = (case read m w of (Inl e, m') \<Rightarrow> (Inl e, m')
                          | (Inr c, m') \<Rightarrow> (g c m', m'\<lparr>content := h c m'\<rparr>))"
    and "\<And>c m' v. g c m' = Inr v \<Longrightarrow> content m' = Some c \<Longrightarrow> h c m' \<noteq> None"
  shows "reads_then f"
proof -
  have "basePath (snd (f m w)) = basePath m
      \<and> resolved (snd (f m w)) = resolved m + (if content m = None then 1 else 0)
      \<and> (\<forall>v. fst (f m w) = Inr v \<longrightarrow> content (snd (f m w)) \<noteq> None)" for m w
  proof (cases "read m w")
    case (Pair r m')
    have b: "basePath m' = basePath m" using read_basePath [of m w] Pair by simp
    have n: "resolved m' = resolved m + (if content m = None then 1 else 0)"
      using read_resolved [of m w] Pair by simp
    show ?thesis
    proof (cases r)
      case (Inl e)
      then show ?thesis using Pair b n assms(1) [of m w] by simp
    next
      case (Inr c)
      then have "content m' = Some c" using Pair read_content by simp
      then show ?thesis using Pair Inr b n assms(1) [of m w] assms(2) [of c m'] by auto
    qed
  qed
  then show ?thesis unfolding reads_then_def by blast
qed

lemma reads_then_read: "reads_then read"
  by (rule reads_thenI [where g = "\<lambda>c m. Inr c" and h = "\<lambda>c m. content m"])
     (auto split: prod.splits sum.splits)

lemma reads_then_bumpProjectVersion: "reads_then bumpProjectVersion"
  by (rule reads_thenI [where
        g = "\<lambda>c m. Inr (parseDecimal (matchFirst codeRegex c),
                         jsAdd1 (Some (parseDecimal (matchFirst codeRegex c))))"
        and h = "\<lambda>c m. Some (replace (codeRegex, True)
                  (''CURRENT_PROJECT_VERSION = ''
                   @ numToString (jsAdd1 (Some (parseDecimal (matchFirst codeRegex c)))) @ '';'') c)"])
     (auto simp: bumpProjectVersion_def Let_def split: prod.splits sum.splits)

lemma reads_then_setMarketingVersion: "reads_then (setMarketingVersion v)"
  by (rule reads_thenI [where
        g = "\<lambda>c m. Inr (matchFirst versionRegex c, v)"
        and h = "\<lambda>c m. Some (replace (versionRegex, True) (''MARKETING_VERSION = '' @ v @ '';'') c)"])
     (auto simp: setMarketingVersion_def Let_def split: prod.splits sum.splits)

lemma reads_then_getCurrentMarketingVersion: "reads_then getCurrentMarketingVersion"
  by (rule reads_thenI [where g = "\<lambda>c m. Inr (matchFirst versionRegex c)" and h = "\<lambda>c m. content m"])
     (auto simp: getCurrentMarketingVersion_def split: prod.splits sum.splits)

lemma reads_then_getCurrentProjectVersion: "reads_then getCurrentProjectVersion"
  by (rule reads_thenI [where g = "\<lambda>c m. Inr (toNum (matchFirst codeRegex c))" and h = "\<lambda>c m. content m"])
     (auto simp: getCurrentProjectVersion_def split: prod.splits sum.splits)

lemma reads_then_bumpCode: "reads_then bumpCode"
  by (rule reads_thenI [where
        g = "\<lambda>c m. if isNaN (jsAdd1 (Some (parseDecimal (matchFirst codeExp c))))
                    then Inl (Error (''Invalid versionCode version parsed (''
                                     @ toStr (matchFirst codeExp c) @ '')''))
                    else Inr (parseDecimal (matchFirst codeExp c),
                              jsAdd1 (Some (parseDecimal (matchFirst codeExp c))))"
        and h = "\<lambda>c m. if isNaN (jsAdd1 (Some (parseDecimal (matchFirst codeExp c))))
                    then content m
                    else Some (replace (codeExp, False)
                      (''versionCode '' @ numToString (jsAdd1 (Some (parseDecimal (matchFirst codeExp c))))) c)"])
     (auto simp: bumpCode_def Let_def split: prod.splits sum.splits)

lemma reads_then_setVersionName: "reads_then (setVersionName v)"
  by (rule reads_thenI [where
        g = "\<lambda>c m. case matchFirst nameExp c of None \<Rightarrow> Inl (TypeError ''replace'')
                    | Some cur \<Rightarrow> Inr (cur, v)"
        and h = "\<lambda>c m. case matchFirst nameExp c of None \<Rightarrow> content m
                    | Some cur \<Rightarrow> Some (replace (nameExp, False)
                        (''versionName '' @ replace (quotes, False) v cur) c)"])
     (auto simp: setVersionName_def Let_def split: prod.splits sum.splits option.splits)

lemma reads_then_getVersionName: "reads_then getVersionName"
  by (rule reads_thenI [where
        g = "\<lambda>c m. case matchFirst nameExp c of None \<Rightarrow> Inl (TypeError ''replace'')
                    | Some cur \<Rightarrow> Inr (replace (anyQuote, True) [] cur)"
        and h = "\<lambda>c m. content m"])
     (auto simp: getVersionName_def split: prod.splits sum.splits option.splits)

lemma reads_then_getVersionCode: "reads_then getVersionCode"
  by (rule reads_thenI [where g = "\<lambda>c m. Inr (parseDecimal (matchFirst codeExp c))" and h = "\<lambda>c m. content m"])
     (auto simp: getVersionCode_def split: prod.splits sum.splits)

lemma discard_reads_then:
  assumes "reads_then f" and "discard (f m w) w = (r, m', w')"
  shows "w' = w \<and> basePath m' = basePath m
       \<and> resolved m' = resolved m + (if content m = None then 1 else 0)
       \<and> (r = Inr () \<longrightarrow> content m' \<noteq> None)"
proof (cases "f m w")
  case (Pair r0 m0)
  have "basePath (snd (f m w)) = basePath m
      \<and> resolved (snd (f m w)) = resolved m + (if content m = None then 1 else 0)
      \<and> (\<forall>v. fst (f m w) = Inr v \<longrightarrow> content (snd (f m w)) \<noteq> None)"
    using assms(1) unfolding reads_then_def by blast
  then show ?thesis using assms(2) Pair by (cases r0) (auto simp: discard_def)
qed

lemma apply_op_not_Write:
  assumes "x \<noteq> Write" and "apply_op x m w = (r, m', w')"
  shows "w' = w \<and> basePath m' = basePath m
       \<and> resolved m' = resolved m + (if content m = None then 1 else 0)
       \<and> (r = Inr () \<longrightarrow> content m' \<noteq> None)"
proof (cases x)
  case Read
  then show ?thesis using assms(2) discard_reads_then [OF reads_then_read] by simp
next
  case Write
  then show ?thesis using assms(1) by simp
next
  case BumpProjectVersion
  then show ?thesis using assms(2) discard_reads_then [OF reads_then_bumpProjectVersion] by simp
next
  case (SetMarketingVersion v)
  then show ?thesis using assms(2) discard_reads_then [OF reads_then_setMarketingVersion] by simp
next
  case GetCurrentMarketingVersion
  then show ?thesis
    using assms(2) discard_reads_then [OF reads_then_getCurrentMarketingVersion] by simp
next
  case GetCurrentProjectVersion
  then show ?thesis
    using assms(2) discard_reads_then [OF reads_then_getCurrentProjectVersion] by simp
next
  case BumpCode
  then show ?thesis using assms(2) discard_reads_then [OF reads_then_bumpCode] by simp
next
  case (SetVersionName v)
  then show ?thesis using assms(2) discard_reads_then [OF reads_then_setVersionName] by simp
next
  case GetVersionName
  then show ?thesis using assms(2) discard_reads_then [OF reads_then_getVersionName] by simp
next
  case GetVersionCode
  then show ?thesis using assms(2) discard_reads_then [OF reads_then_getVersionCode] by simp
qed

lemma write_m_cases:
  assumes "write_m m w = (r, m', w')"
  shows "basePath m' = basePath m \<and> content m' = content m
       \<and> resolved m' = resolved m + (if content m = None \<or> content m = Some [] then 0 else 1)"
  using assms
  by (auto simp: write_m_def split: option.splits if_splits sum.splits prod.splits)

lemma apply_ops_resolved:
  "apply_ops ops m w = (r, m', w') \<Longrightarrow>
   resolved m' \<le> resolved m + (if content m = None then 1 else 0) + count_list ops Write"
proof (induction ops arbitrary: m w)
  case Nil
  then show ?case by simp
next
  case (Cons x xs)
  obtain r1 m1 w1 where step: "apply_op x m w = (r1, m1, w1)"
    by (cases "apply_op x m w") auto
  show ?case
  proof (cases "x = Write")
    case True
    then have wr: "write_m m w = (r1, m1, w1)" using step by simp
    note c = write_m_cases [OF wr]
    show ?thesis
    proof (cases r1)
      case (Inl e)
      then have "m' = m1" using Cons.prems step by simp
      then show ?thesis using c True by auto
    next
      case (Inr u)
      then have "apply_ops xs m1 w1 = (r, m', w')" using Cons.prems step by simp
      from Cons.IH [OF this] show ?thesis using c True by (auto split: if_splits)
    qed
  next
    case False
    note c = apply_op_not_Write [OF False step]
    show ?thesis
    proof (cases r1)
      case (Inl e)
      then have "m' = m1" using Cons.prems step by simp
      then show ?thesis using c False by auto
    next
      case (Inr u)
      then have "apply_ops xs m1 w1 = (r, m', w')" using Cons.prems step by simp
      from Cons.IH [OF this] show ?thesis using c False Inr by (auto split: if_splits)
    qed
  qed
qed

lemma apply_ops_buffer:
  "apply_ops ops m w = (Inr (), m', w') \<Longrightarrow>
   basePath m' = basePath m
   \<and> (content m' = None \<longleftrightarrow> content m = None \<and> (\<forall>x\<in>set ops. x = Write))"
proof (induction ops arbitrary: m w)
  case Nil
  then show ?case by simp
next
  case (Cons x xs)
  obtain r1 m1 w1 where step: "apply_op x m w = (r1, m1, w1)"
    by (cases "apply_op x m w") auto
  then obtain u where r1: "r1 = Inr u" using Cons.prems by (cases r1) auto
  then have rest: "apply_ops xs m1 w1 = (Inr (), m', w')" using Cons.prems step by simp
  show ?case
  proof (cases "x = Write")
    case True
    then have "write_m m w = (r1, m1, w1)" using step by simp
    from write_m_cases [OF this] Cons.IH [OF rest] True show ?thesis by auto
  next
    case False
    from apply_op_not_Write [OF False step] Cons.IH [OF rest] False r1 show ?thesis by auto
  qed
qed

text \<open>
  C6, for non-empty buffers.  After any sequence of calls that returned on a new manager,
  \<open>write\<close> persists the buffer to the backing path exactly when the buffer is a non-empty
  string: the buffer is \<^verbatim>\<open>null\<close> if and only if the manager was never read, and on
  \<^verbatim>\<open>null\<close> and on the empty string \<open>write\<close> changes nothing; on a non-empty buffer it
  writes the buffer to the path (which must be writable).
\<close>

theorem write_m_persists_nonempty_buffer:
  assumes "apply_ops ops (newManager (Inr p)) w = (Inr (), m, w1)"
  shows "(content m = None \<longleftrightarrow> (\<forall>x\<in>set ops. x = Write))
       \<and> (content m = None \<or> content m = Some [] \<longrightarrow> write_m m w1 = (Inr (), m, w1))
       \<and> (\<forall>c. content m = Some c \<and> c \<noteq> [] \<and> p \<notin> locked w1 \<longrightarrow>
            write_m m w1 =
              (Inr (), m\<lparr>resolved := Suc (resolved m)\<rparr>,
               w1\<lparr>files := (files w1)(p \<mapsto> c), written := written w1 @ [(p, c)]\<rparr>))"
proof -
  have "basePath m = Inr p" and "content m = None \<longleftrightarrow> (\<forall>x\<in>set ops. x = Write)"
    using apply_ops_buffer [OF assms] by (simp_all add: newManager_def)
  then show ?thesis by (auto simp: write_m_def writeFile_def)
qed

theorem write_m_persists_nonempty_buffer_witness:
  "write_m \<lparr>basePath = Inr ''build.gradle'', content = Some ''versionCode 1'', resolved = 1\<rparr>
     \<lparr>files = [''build.gradle'' \<mapsto> ''versionCode 1''], locked = {}, written = [], console = []\<rparr>
   = (Inr (), \<lparr>basePath = Inr ''build.gradle'', content = Some ''versionCode 1'', resolved = 2\<rparr>,
      \<lparr>files = [''build.gradle'' \<mapsto> ''versionCode 1''], locked = {},
       written = [(''build.gradle'', ''versionCode 1'')], console = []\<rparr>)"
proof -
  have a: "apply_ops [Read] (newManager (Inr ''build.gradle''))
        \<lparr>files = [''build.gradle'' \<mapsto> ''versionCode 1''], locked = {}, written = [], console = []\<rparr>
      = (Inr (), \<lparr>basePath = Inr ''build.gradle'', content = Some ''versionCode 1'', resolved = 1\<rparr>,
        \<lparr>files = [''build.gradle'' \<mapsto> ''versionCode 1''], locked = {}, written = [], console = []\<rparr>)"
    by (simp add: newManager_def read_def readFileSync_def discard_def)
  show ?thesis using write_m_persists_nonempty_buffer [OF a] by simp
qed

theorem write_m_empty_buffer_counterexample:
  "apply_ops [Read, Write] (newManager (Inr ''project.pbxproj''))
     \<lparr>files = [''project.pbxproj'' \<mapsto> []], locked = {}, written = [], console = []\<rparr>
   = (Inr (), \<lparr>basePath = Inr ''project.pbxproj'', content = Some [], resolved = 1\<rparr>,
      \<lparr>files = [''project.pbxproj'' \<mapsto> []], locked = {}, written = [], console = []\<rparr>)"
  by (simp add: newManager_def read_def readFileSync_def discard_def write_m_def)

text \<open>
  C9, counting the writes.  Over any sequence of calls on a new manager the path function is
  called at most once by all the reading methods together (the first read; later ones use
  the buffer), and once more by each call of \<open>write\<close>: never more than one plus the number
  of writes.
\<close>

theorem basePath_called_once_per_read_and_write:
  "apply_ops ops (newManager p) w = (r, m', w') \<Longrightarrow> resolved m' \<le> 1 + count_list ops Write"
  using apply_ops_resolved [of ops "newManager p" w r m' w'] by (simp add: newManager_def)

theorem basePath_called_once_per_read_and_write_witness:
  "resolved (fst (snd (apply_ops [Read, Read]
     (newManager (Inr ''build.gradle''))
     \<lparr>files = [''build.gradle'' \<mapsto> ''versionCode 1''], locked = {}, written = [], console = []\<rparr>)))
   \<le> 1"
  using basePath_called_once_per_read_and_write [of "[Read, Read]"
      "Inr ''build.gradle''"
      "\<lparr>files = [''build.gradle'' \<mapsto> ''versionCode 1''], locked = {}, written = [], console = []\<rparr>"]
  by (cases "apply_ops [Read, Read] (newManager (Inr ''build.gradle''))
      \<lparr>files = [''build.gradle'' \<mapsto> ''versionCode 1''], locked = {}, written = [], console = []\<rparr>")
     auto

theorem basePath_called_twice_counterexample:
  "resolved (fst (snd (apply_ops [Read, Write]
     (newManager (Inr ''build.gradle''))
     \<lparr>files = [''build.gradle'' \<mapsto> ''versionCode 1''], locked = {}, written = [], console = []\<rparr>)))
   = 2"
  by (simp add: newManager_def read_def readFileSync_def discard_def write_m_def writeFile_def)

section \<open>Patterns that do not match\<close>

lemma parseDecimal_undefined: "parseDecimal None = NaN"
  by (simp add: parseDecimal_def toStr_def parseInt10_def isStrWhiteSpace_def isDigit_def)

lemma matchFirst_None: "exec reg value = None \<Longrightarrow> matchFirst reg value = None"
  by (simp add: matchFirst_def)

text \<open>
  C2, with the result the code gives.  On a buffer in which the field pattern has no match \<open>matchFirst\<close>
  raises nothing: it returns \<^verbatim>\<open>undefined\<close>.  In the Android manager the missing field
  then ends the call before the buffer is touched: \<open>bumpCode\<close> raises the invalid
  versionCode error, \<open>setVersionName\<close> and \<open>getVersionName\<close> fail on calling a method of
  \<^verbatim>\<open>undefined\<close>.
\<close>

theorem matchFirst_returns_undefined:
  assumes "content m = Some file"
  shows "(exec reg file = None \<longrightarrow> matchFirst reg file = None)
       \<and> (exec codeExp file = None \<longrightarrow>
            bumpCode m w = (Inl (Error ''Invalid versionCode version parsed (undefined)''), m))
       \<and> (exec nameExp file = None \<longrightarrow>
            setVersionName next m w = (Inl (TypeError ''replace''), m)
            \<and> getVersionName m w = (Inl (TypeError ''replace''), m))"
  using assms
  by (simp add: matchFirst_None read_loaded bumpCode_def setVersionName_def getVersionName_def
      parseDecimal_undefined jsAdd1_def isNaN_def toStr_def)

theorem matchFirst_returns_undefined_witness:
  "matchFirst codeExp ''android { }'' = None
 \<and> bumpCode \<lparr>basePath = Inr ''build.gradle'', content = Some ''android { }'', resolved = 1\<rparr>
      \<lparr>files = Map.empty, locked = {}, written = [], console = []\<rparr>
    = (Inl (Error ''Invalid versionCode version parsed (undefined)''),
       \<lparr>basePath = Inr ''build.gradle'', content = Some ''android { }'', resolved = 1\<rparr>)"
proof -
  have e: "exec codeExp ''android { }'' = None"
    by (simp add: exec_def codeExp_def digitsAfter_def stripPrefix_def)
  show ?thesis
    using matchFirst_returns_undefined [of
        "\<lparr>basePath = Inr ''build.gradle'', content = Some ''android { }'', resolved = 1\<rparr>"
        "''android { }''" codeExp
        "\<lparr>files = Map.empty, locked = {}, written = [], console = []\<rparr>"] e
    by simp
qed

theorem matchFirst_no_failure_counterexample:
  "exec codeRegex ''/* empty project */'' = None
 \<and> matchFirst codeRegex ''/* empty project */'' = None
 \<and> bumpProjectVersion
      \<lparr>basePath = Inr ''project.pbxproj'', content = Some ''/* empty project */'', resolved = 1\<rparr>
      \<lparr>files = Map.empty, locked = {}, written = [], console = []\<rparr>
    = (Inr (NaN, NaN),
       \<lparr>basePath = Inr ''project.pbxproj'', content = Some ''/* empty project */'', resolved = 1\<rparr>)"
proof -
  have e: "exec codeRegex ''/* empty project */'' = None"
    by (simp add: exec_def codeRegex_def digitsAfter_def stripPrefix_def)
  have r: "replaceAll codeRegex t ''/* empty project */'' = ''/* empty project */''" for t
    by (simp add: replaceAll_def codeRegex_def digitsAfter_def stripPrefix_def)
  show ?thesis
    by (simp add: e matchFirst_None bumpProjectVersion_def read_loaded parseDecimal_undefined
        jsAdd1_def replace_def r)
qed

section \<open>The version code of the Android build file\<close>

lemma exec_from_Some:
  "exec_from re pre s = Some mt \<Longrightarrow> \<exists>k. re (drop k s) = Some (matched mt, captures mt)"
proof (induction s arbitrary: pre)
  case Nil
  then show ?case by (auto split: option.splits)
next
  case (Cons c cs)
  show ?case
  proof (cases "re (c # cs)")
    case None
    then have "exec_from re (pre @ [c]) cs = Some mt" using Cons.prems by simp
    from Cons.IH [OF this] obtain k where "re (drop k cs) = Some (matched mt, captures mt)" ..
    then have "re (drop (Suc k) (c # cs)) = Some (matched mt, captures mt)" by simp
    then show ?thesis ..
  next
    case (Some a)
    then have "re (drop 0 (c # cs)) = Some (matched mt, captures mt)"
      using Cons.prems by (auto split: prod.splits)
    then show ?thesis ..
  qed
qed

lemma digitsAfter_Some:
  "digitsAfter lit s semi = Some (mtext, caps) \<Longrightarrow>
   \<exists>ds. caps = [ds] \<and> ds \<noteq> [] \<and> (\<forall>c\<in>set ds. isDigit c)"
  by (auto simp: digitsAfter_def Let_def split: option.splits if_splits dest: set_takeWhileD)

text \<open>
  C10.  On a buffer in which \<^verbatim>\<open>/versionCode (\d+)/\<close> has a match, the capture is a
  non-empty run of digits, it parses to a number, and \<open>bumpCode\<close> returns the pair of that
  number and that number plus one: the invalid versionCode error is not raised.  The sum
  is the sum of the two integers whenever the code is a safe integer.
\<close>

theorem bumpCode_never_invalid:
  assumes "read m w = (Inr file, m1)" and "exec codeExp file \<noteq> None"
  shows "\<exists>ds. matchFirst codeExp file = Some ds \<and> ds \<noteq> [] \<and> (\<forall>c\<in>set ds. isDigit c)
            \<and> toNumber False (decimalValue ds) \<noteq> NaN
            \<and> fst (bumpCode m w) =
                Inr (toNumber False (decimalValue ds), jsAdd1 (Some (toNumber False (decimalValue ds))))
            \<and> (isSafeInteger (int (decimalValue ds)) \<longrightarrow>
                 fst (bumpCode m w) = Inr (Num (int (decimalValue ds)), Num (int (decimalValue ds) + 1)))"
proof -
  from assms(2) obtain mt where mt: "exec codeExp file = Some mt" by auto
  then obtain k where "codeExp (drop k file) = Some (matched mt, captures mt)"
    using exec_from_Some [where re = codeExp and pre = "[]" and s = "file"] by (auto simp: exec_def)
  then obtain ds where ds: "captures mt = [ds]" "ds \<noteq> []" "\<forall>c\<in>set ds. isDigit c"
    using digitsAfter_Some [of "''versionCode ''" "drop k file" False] by (auto simp: codeExp_def)
  have mf: "matchFirst codeExp file = Some ds" using mt ds(1) by (simp add: matchFirst_def nth_opt_def)
  let ?n = "toNumber False (decimalValue ds)"
  have p: "parseDecimal (Some ds) = ?n" using parseInt10_digits [OF ds(2,3)] by (simp add: parseDecimal_def toStr_def)
  have nn: "jsAdd1 (Some ?n) \<noteq> NaN" by (rule jsAdd1_not_NaN) (rule toNumber_not_NaN)
  have b: "fst (bumpCode m w) = Inr (?n, jsAdd1 (Some ?n))"
    using assms(1) mf p nn by (simp add: bumpCode_def Let_def isNaN_def)
  have s: "fst (bumpCode m w) = Inr (Num (int (decimalValue ds)), Num (int (decimalValue ds) + 1))"
    if "isSafeInteger (int (decimalValue ds))"
  proof -
    from that have "decimalValue ds \<le> 2 ^ 53" by (simp add: isSafeInteger_def)
    then have "?n = Num (int (decimalValue ds))" using toNumber_exact [of "decimalValue ds" False] by simp
    then show ?thesis using b jsAdd1_safe [OF that] by simp
  qed
  show ?thesis using mf ds(2,3) toNumber_not_NaN b s by blast
qed

theorem bumpCode_never_invalid_witness:
  "fst (bumpCode (newManager (Inr ''build.gradle''))
     \<lparr>files = [''build.gradle'' \<mapsto> ''versionCode 23''], locked = {}, written = [], console = []\<rparr>)
   = Inr (Num 23, Num 24)"
proof -
  let ?w = "\<lparr>files = [''build.gradle'' \<mapsto> ''versionCode 23''], locked = {}, written = [], console = []\<rparr>"
  have r: "read (newManager (Inr ''build.gradle'')) ?w
      = (Inr ''versionCode 23'', \<lparr>basePath = Inr ''build.gradle'', content = Some ''versionCode 23'', resolved = 1\<rparr>)"
    by (simp add: newManager_def read_def readFileSync_def)
  have e: "exec codeExp ''versionCode 23'' \<noteq> None"
    by (simp add: exec_def codeExp_def digitsAfter_def stripPrefix_def isDigit_def Let_def)
  have m: "matchFirst codeExp ''versionCode 23'' = Some ''23''"
    by (simp add: matchFirst_def nth_opt_def exec_def codeExp_def digitsAfter_def stripPrefix_def
        isDigit_def Let_def)
  have d: "decimalValue ''23'' = 23" by (simp add: decimalValue_def digitVal_def)
  show ?thesis
    using bumpCode_never_invalid [OF r e] m d by (auto simp: isSafeInteger_def)
qed

section \<open>The version name of the Android build file\<close>

lemma getSubstitution_plain: "CHR ''$'' \<notin> set t \<Longrightarrow> getSubstitution m t = t"
  by (induction m t rule: getSubstitution.induct) auto

lemma exec_from_skip:
  "\<forall>k<length pre. re (drop k (pre @ s)) = None \<Longrightarrow>
   exec_from re acc (pre @ s) = exec_from re (acc @ pre) s"
proof (induction pre arbitrary: acc)
  case Nil
  then show ?case by simp
next
  case (Cons c cs)
  have "re (drop 0 ((c # cs) @ s)) = None" using Cons.prems by blast
  then have h: "re (c # cs @ s) = None" by simp
  have "\<forall>k<length cs. re (drop k (cs @ s)) = None"
  proof (intro allI impI)
    fix k assume "k < length cs"
    then have "re (drop (Suc k) ((c # cs) @ s)) = None" using Cons.prems by auto
    then show "re (drop k (cs @ s)) = None" by simp
  qed
  from Cons.IH [OF this, of "acc @ [c]"] h show ?case by simp
qed

lemma exec_from_here:
  "s \<noteq> [] \<Longrightarrow> re s = Some (mtext, caps) \<Longrightarrow>
   exec_from re acc s = Some \<lparr>before = acc, matched = mtext, captures = caps, after = drop (length mtext) s\<rparr>"
  by (cases s) auto

lemma upToLast_absent: "q \<notin> set xs \<Longrightarrow> upToLast q xs = None"
  by (induction xs) auto

lemma upToLast_last: "q \<notin> set rest \<Longrightarrow> upToLast q (a @ q # rest) = Some a"
  by (induction a) (auto simp: upToLast_absent)

lemma quoted_value:
  assumes "\<forall>c\<in>set inner. \<not> isLineTerminator c" and "\<not> isLineTerminator q"
    and "q \<notin> set (takeWhile (\<lambda>c. \<not> isLineTerminator c) post)"
  shows "quoted q (q # inner @ q # post) = Some (q # inner @ [q])"
proof -
  have "takeWhile (\<lambda>c. \<not> isLineTerminator c) (inner @ q # post)
      = inner @ q # takeWhile (\<lambda>c. \<not> isLineTerminator c) post"
    using assms(1,2) by (simp add: takeWhile_append2)
  then show ?thesis using upToLast_last [OF assms(3), of inner] by (simp add: quoted_def)
qed

lemma nameExp_value:
  assumes "q = CHR 0x27 \<or> q = CHR 0x22" and "\<forall>c\<in>set inner. \<not> isLineTerminator c"
    and "q \<notin> set (takeWhile (\<lambda>c. \<not> isLineTerminator c) post)"
  shows "nameExp (''versionName '' @ q # inner @ q # post)
       = Some (''versionName '' @ q # inner @ [q], [q # inner @ [q]])"
proof -
  have nl: "\<not> isLineTerminator q" using assms(1) by (auto simp: isLineTerminator_def)
  have s: "stripPrefix ''versionName '' (''versionName '' @ q # inner @ q # post) = Some (q # inner @ q # post)"
    by (simp add: stripPrefix_def)
  have v: "quoted q (q # inner @ q # post) = Some (q # inner @ [q])"
    by (rule quoted_value [OF assms(2) nl assms(3)])
  have o: "q = CHR 0x22 \<Longrightarrow> quoted (CHR 0x27) (q # inner @ q # post) = None"
    by (simp add: quoted_def)
  show ?thesis using assms(1) s v o unfolding nameExp_def by auto
qed

lemma replace_quotes_inner:
  assumes "isQuote q" and "inner \<noteq> []" and "\<forall>c\<in>set inner. \<not> isQuote c"
    and "CHR ''$'' \<notin> set next"
  shows "replace (quotes, False) next (q # inner @ [q]) = q # next @ [q]"
proof -
  have a: "quotes (q # inner @ [q]) = None" using assms(1) by (simp add: quotes_def)
  have t: "takeWhile (\<lambda>c. \<not> isQuote c) (inner @ [q]) = inner"
    using assms(1,3) by (simp add: takeWhile_append2)
  then have b: "quotes (inner @ [q]) = Some (inner, [])" using assms(2) by (simp add: quotes_def)
  have "exec quotes (q # inner @ [q])
      = Some \<lparr>before = [q], matched = inner, captures = [], after = [q]\<rparr>"
    using a b assms(2)
      exec_from_here [where re = quotes and s = "inner @ [q]" and acc = "[q]"
        and mtext = inner and caps = "[]"]
    by (simp add: exec_def)
  then show ?thesis using assms(4) by (simp add: replace_def replaceFirst_def getSubstitution_plain)
qed

text \<open>
  C7, for values the substitution covers.  Let the buffer be \<open>pre\<close>, then \<^verbatim>\<open>versionName\<close>, a space, a quote
  character \<open>q\<close> (single or double), a value \<open>inner\<close>, the same quote and \<open>post\<close>, this
  being the first place where the pattern matches and the closing quote the last \<open>q\<close>
  on its line.  If the value is not empty and holds no quote character and no line
  break, and the new name holds no dollar sign, then \<open>setVersionName\<close> replaces the
  value by the new name, keeps both quote characters and the rest of the buffer, and
  returns the quoted old value with the new name.
\<close>

theorem setVersionName_rewrites_value:
  assumes "read m w = (Inr buf, m1)"
    and "buf = pre @ ''versionName '' @ q # inner @ q # post"
    and "q = CHR 0x27 \<or> q = CHR 0x22"
    and "\<forall>k<length pre. nameExp (drop k buf) = None"
    and "inner \<noteq> []"
    and "\<forall>c\<in>set inner. \<not> isQuote c \<and> \<not> isLineTerminator c"
    and "q \<notin> set (takeWhile (\<lambda>c. \<not> isLineTerminator c) post)"
    and "CHR ''$'' \<notin> set next"
  shows "setVersionName next m w =
           (Inr (q # inner @ [q], next),
            m1\<lparr>content := Some (pre @ ''versionName '' @ q # next @ q # post)\<rparr>)"
proof -
  let ?s = "''versionName '' @ q # inner @ q # post"
  have q: "isQuote q" using assms(3) by (auto simp: isQuote_def)
  have n: "nameExp ?s = Some (''versionName '' @ q # inner @ [q], [q # inner @ [q]])"
    using nameExp_value [OF assms(3) _ assms(7)] assms(6) by blast
  have "exec nameExp buf = exec_from nameExp ([] @ pre) ?s"
    using exec_from_skip [of pre nameExp ?s "[]"] assms(2,4) by (simp add: exec_def)
  also have "\<dots> = Some \<lparr>before = pre, matched = ''versionName '' @ q # inner @ [q],
                         captures = [q # inner @ [q]], after = post\<rparr>"
    using n exec_from_here [where re = nameExp and s = ?s and acc = pre
        and mtext = "''versionName '' @ q # inner @ [q]" and caps = "[q # inner @ [q]]"]
    by simp
  finally have e: "exec nameExp buf = Some \<lparr>before = pre, matched = ''versionName '' @ q # inner @ [q],
                         captures = [q # inner @ [q]], after = post\<rparr>" .
  then have mf: "matchFirst nameExp buf = Some (q # inner @ [q])"
    by (simp add: matchFirst_def nth_opt_def)
  have r1: "replace (quotes, False) next (q # inner @ [q]) = q # next @ [q]"
    using replace_quotes_inner [OF q assms(5) _ assms(8)] assms(6) by blast
  have d: "CHR ''$'' \<notin> set (''versionName '' @ q # next @ [q])"
    using assms(3,8) by auto
  have r2: "replace (nameExp, False) (''versionName '' @ q # next @ [q]) buf
      = pre @ ''versionName '' @ q # next @ q # post"
    using e getSubstitution_plain [OF d] by (simp add: replace_def replaceFirst_def)
  show ?thesis
    using assms(1) mf r1 r2 by (simp add: setVersionName_def)
qed

theorem setVersionName_rewrites_value_witness:
  "setVersionName ''1.2.4''
     \<lparr>basePath = Inr ''build.gradle'',
      content = Some (''  versionName '' @ [CHR 0x22] @ ''1.2.3'' @ [CHR 0x22] @ '' // name''),
      resolved = 1\<rparr>
     \<lparr>files = Map.empty, locked = {}, written = [], console = []\<rparr>
   = (Inr ([CHR 0x22] @ ''1.2.3'' @ [CHR 0x22], ''1.2.4''),
      \<lparr>basePath = Inr ''build.gradle'',
       content = Some (''  versionName '' @ [CHR 0x22] @ ''1.2.4'' @ [CHR 0x22] @ '' // name''),
       resolved = 1\<rparr>)"
proof -
  let ?m = "\<lparr>basePath = Inr ''build.gradle'',
      content = Some (''  versionName '' @ [CHR 0x22] @ ''1.2.3'' @ [CHR 0x22] @ '' // name''),
      resolved = 1\<rparr>"
  let ?w = "\<lparr>files = Map.empty, locked = {}, written = [], console = []\<rparr>"
  have r: "read ?m ?w = (Inr (''  versionName '' @ [CHR 0x22] @ ''1.2.3'' @ [CHR 0x22] @ '' // name''), ?m)"
    by (simp add: read_def)
  have f: "\<forall>k<length ''  ''. nameExp (drop k (''  versionName '' @ [CHR 0x22] @ ''1.2.3'' @ [CHR 0x22] @ '' // name'')) = None"
    by (simp add: All_less_Suc nameExp_def stripPrefix_def)
  show ?thesis
    using setVersionName_rewrites_value [OF r, of "''  ''" "CHR 0x22" "''1.2.3''" "'' // name''" "''1.2.4''"] f
    by (simp add: isQuote_def isLineTerminator_def)
qed

theorem setVersionName_empty_value_counterexample:
  "setVersionName ''1.2.4''
     \<lparr>basePath = Inr ''build.gradle'', content = Some (''versionName '' @ [CHR 0x22, CHR 0x22]),
      resolved = 1\<rparr>
     \<lparr>files = Map.empty, locked = {}, written = [], console = []\<rparr>
   = (Inr ([CHR 0x22, CHR 0x22], ''1.2.4''),
      \<lparr>basePath = Inr ''build.gradle'', content = Some (''versionName '' @ [CHR 0x22, CHR 0x22]),
       resolved = 1\<rparr>)"
  by (simp add: setVersionName_def read_def matchFirst_def nth_opt_def exec_def nameExp_def
      stripPrefix_def quoted_def isLineTerminator_def replace_def replaceFirst_def quotes_def
      isQuote_def)

section \<open>Evaluating the example project\<close>

lemmas eval_number =
  parseDecimal_def toStr_def parseInt10_def isStrWhiteSpace_def isDigit_def decimalValue_def
  digitVal_def toNumber_exact jsAdd1_def numToString_def showDouble_def showNat.simps
  digitChar_def isNaN_def nth_opt_def Let_def

lemmas eval_pattern =
  exec_def matchFirst_def stripPrefix_def isLineTerminator_def isQuote_def digitsAfter_def
  codeRegex_def versionRegex_def codeExp_def quoted_def nameExp_def quotes_def anyQuote_def
  replaceFirst_def replaceAll_def replace_def

lemmas eval_manager =
  newManager_def read_def readFileSync_def write_m_def writeFile_def bumpProjectVersion_def
  setMarketingVersion_def bumpCode_def setVersionName_def readPackage_def getVersion_def
  setVersion_def

lemmas eval_project =
  example_state_def example_runtime_def example_world_def example_configs_def
  example_manifest_text_def apiVersioner_def bind_def proceed_def throw_def onPbx_def
  onBuildGradle_def onPackageJSON_def consoleLog_def falsy_def

lemma example_read_version:
  "fst (onPackageJSON (getVersion example_runtime) example_state) = Inr (Some ''1.10.6'')"
  by (simp add: eval_project eval_manager)

lemma example_next_minor: "incrementSemVer ''1.10.6'' (Some ''minor'') = Inr ''1.11.0''"
  by (simp add: incrementSemVer_def parseSemVer_def eval_number)

lemma example_bumpCodes:
  "fst (bumpCodes example_configs (snd (onPackageJSON (getVersion example_runtime) example_state)))
   = Inr ()"
  by (simp add: bumpCodes_def eval_project eval_manager eval_pattern eval_number)

lemma example_dryRun_no_type:
  "fst (dryRun example_runtime (example_configs\<lparr>type := None\<rparr>) example_state)
   = Inl (Error ''SemVer type not specified'')"
  by (simp add: dryRun_def nextVersion_def example_next_minor [simplified] bumpCodes_def
      eval_project eval_manager eval_pattern eval_number)

section \<open>The compute phase\<close>

lemma keeps_disk_bind: "keeps_disk f \<Longrightarrow> (\<And>a. keeps_disk (g a)) \<Longrightarrow> keeps_disk (bind f g)"
  unfolding keeps_disk_def bind_def
proof (intro allI)
  fix s
  assume f: "\<forall>s. files (world (snd (f s))) = files (world s)
        \<and> locked (world (snd (f s))) = locked (world s)
        \<and> written (world (snd (f s))) = written (world s)"
    and g: "\<And>a. \<forall>s. files (world (snd (g a s))) = files (world s)
        \<and> locked (world (snd (g a s))) = locked (world s)
        \<and> written (world (snd (g a s))) = written (world s)"
  obtain r s1 where fs: "f s = (r, s1)" by (cases "f s") auto
  have a: "files (world s1) = files (world s) \<and> locked (world s1) = locked (world s)
      \<and> written (world s1) = written (world s)"
    using f [rule_format, of s] fs by simp
  show "files (world (snd (case f s of (Inl e, s') \<Rightarrow> (Inl e, s') | (Inr a, s') \<Rightarrow> g a s'))) = files (world s)
      \<and> locked (world (snd (case f s of (Inl e, s') \<Rightarrow> (Inl e, s') | (Inr a, s') \<Rightarrow> g a s'))) = locked (world s)
      \<and> written (world (snd (case f s of (Inl e, s') \<Rightarrow> (Inl e, s') | (Inr a, s') \<Rightarrow> g a s'))) = written (world s)"
  proof (cases r)
    case (Inl e)
    then show ?thesis using fs a by simp
  next
    case (Inr v)
    then show ?thesis using fs a g [of v, rule_format, of s1] by simp
  qed
qed

lemma keeps_disk_basic:
  "keeps_disk proceed" "keeps_disk (throw e)" "keeps_disk (consoleLog line)"
  "keeps_disk (\<lambda>s. (x, s))"
  "keeps_disk (onPbx f)" "keeps_disk (onBuildGradle f)" "keeps_disk (onPackageJSON h)"
  by (simp_all add: keeps_disk_def proceed_def throw_def consoleLog_def onPbx_def
      onBuildGradle_def onPackageJSON_def split: prod.splits)

lemma keeps_disk_if: "keeps_disk f \<Longrightarrow> keeps_disk g \<Longrightarrow> keeps_disk (if c then f else g)"
  by simp

lemma keeps_disk_pair: "(\<And>a b. keeps_disk (g a b)) \<Longrightarrow> keeps_disk (case p of (a, b) \<Rightarrow> g a b)"
  by (cases p) simp

lemmas keeps_disk_intros = keeps_disk_bind keeps_disk_basic keeps_disk_if keeps_disk_pair

lemma keeps_disk_syncSemver: "keeps_disk (syncSemver rt cfg v)"
  unfolding syncSemver_def by (intro keeps_disk_intros)

lemma keeps_disk_bumpCodes: "keeps_disk (bumpCodes cfg)"
  unfolding bumpCodes_def by (intro keeps_disk_intros)

lemma keeps_disk_dryRun: "keeps_disk (dryRun rt cfg)"
  unfolding dryRun_def
  by (intro keeps_disk_intros keeps_disk_syncSemver keeps_disk_bumpCodes)

text \<open>
  C5.  \<open>dryRun\<close> writes no file: whatever the configuration, the managers and the files,
  the files and the list of writes are after \<open>dryRun\<close> what they were before, whether it
  returns or raises.  If it raises, \<open>run\<close> raises the same error at once, so that a failure
  of the compute phase leaves every file as it was.
\<close>

theorem dryRun_writes_nothing:
  "files (world (snd (dryRun rt cfg s))) = files (world s)
 \<and> written (world (snd (dryRun rt cfg s))) = written (world s)
 \<and> (\<forall>e. fst (dryRun rt cfg s) = Inl e \<longrightarrow>
       fst (run rt cfg s) = Inl e
     \<and> files (world (snd (run rt cfg s))) = files (world s)
     \<and> written (world (snd (run rt cfg s))) = written (world s))"
proof -
  have k: "files (world (snd (dryRun rt cfg s))) = files (world s)
      \<and> written (world (snd (dryRun rt cfg s))) = written (world s)"
    using keeps_disk_dryRun [of rt cfg] unfolding keeps_disk_def by blast
  have "run rt cfg s = (Inl e, snd (dryRun rt cfg s))" if "fst (dryRun rt cfg s) = Inl e" for e
    using that by (cases "dryRun rt cfg s") (simp add: run_def bind_def)
  then show ?thesis using k by simp
qed

theorem dryRun_writes_nothing_witness:
  "fst (run example_runtime (example_configs\<lparr>type := None\<rparr>) example_state)
     = Inl (Error ''SemVer type not specified'')
 \<and> files (world (snd (run example_runtime (example_configs\<lparr>type := None\<rparr>) example_state)))
     = files example_world
 \<and> written (world (snd (run example_runtime (example_configs\<lparr>type := None\<rparr>) example_state)))
     = []"
proof -
  have w: "world example_state = example_world"
    by (simp add: example_state_def apiVersioner_def)
  have e: "written example_world = []" by (simp add: example_world_def)
  show ?thesis
    using dryRun_writes_nothing [of example_runtime "example_configs\<lparr>type := None\<rparr>" example_state]
      example_dryRun_no_type w e
    by simp
qed

text \<open>
  C3, once the earlier steps have returned.  When the skip-version-sync set does not
  contain \<^verbatim>\<open>"all"\<close> and no release kind is given, \<open>dryRun\<close> never returns: it raises, and
  it is the manifest read, the computation of the next version and the code bumps followed
  by the throw of \<^verbatim>\<open>SemVer type not specified\<close>, so that \<open>syncSemver\<close> is never run and an
  error of an earlier step is raised in its place.  Once the manifest version is read, the
  next version computed and the codes bumped, the error is \<^verbatim>\<open>SemVer type not specified\<close>
  and the state is the one the code bumps left.
\<close>

theorem dryRun_missing_type:
  assumes "''all'' \<notin> set (skipSemverFor cfg)" and "type cfg = None"
  shows "(\<exists>e. fst (dryRun rt cfg s) = Inl e)
       \<and> (\<forall>current s1 next s2.
            onPackageJSON (getVersion rt) s = (Inr current, s1)
            \<and> nextVersion cfg current = Inr next
            \<and> (if ''all'' \<notin> set (skipCodeFor cfg) then bumpCodes cfg else proceed) s1 = (Inr (), s2)
            \<longrightarrow> dryRun rt cfg s = (Inl (Error ''SemVer type not specified''), s2))
       \<and> dryRun rt cfg s =
           bind (onPackageJSON (getVersion rt)) (\<lambda>current.
           bind (\<lambda>s. (nextVersion cfg current, s)) (\<lambda>next.
           bind (if ''all'' \<notin> set (skipCodeFor cfg) then bumpCodes cfg else proceed) (\<lambda>_.
           throw (Error ''SemVer type not specified'')))) s"
proof -
  have f: "falsy (type cfg)" using assms(2) by (simp add: falsy_def)
  have c: "dryRun rt cfg s =
           bind (onPackageJSON (getVersion rt)) (\<lambda>current.
           bind (\<lambda>s. (nextVersion cfg current, s)) (\<lambda>next.
           bind (if ''all'' \<notin> set (skipCodeFor cfg) then bumpCodes cfg else proceed) (\<lambda>_.
           throw (Error ''SemVer type not specified'')))) s"
    using assms(1) f by (simp add: dryRun_def)
  have a: "\<exists>e. fst (dryRun rt cfg s) = Inl e"
    using assms(1) f
    by (auto simp: dryRun_def bind_def throw_def split: prod.splits sum.splits)
  have b: "dryRun rt cfg s = (Inl (Error ''SemVer type not specified''), s2)"
    if "onPackageJSON (getVersion rt) s = (Inr current, s1)"
      and "nextVersion cfg current = Inr next"
      and "(if ''all'' \<notin> set (skipCodeFor cfg) then bumpCodes cfg else proceed) s1 = (Inr (), s2)"
    for current s1 "next" s2
    using that assms(1) f by (simp add: dryRun_def bind_def throw_def)
  show ?thesis using a b c by blast
qed

theorem dryRun_missing_type_witness:
  "fst (dryRun example_runtime (example_configs\<lparr>type := None\<rparr>) example_state)
   = Inl (Error ''SemVer type not specified'')"
proof -
  let ?cfg = "example_configs\<lparr>type := None\<rparr>"
  let ?a = "onPackageJSON (getVersion example_runtime) example_state"
  let ?b = "bumpCodes example_configs (snd ?a)"
  have h1: "''all'' \<notin> set (skipSemverFor ?cfg)" and h2: "type ?cfg = None"
    by (simp_all add: example_configs_def)
  have a: "?a = (Inr (Some ''1.10.6''), snd ?a)"
    using example_read_version by (cases ?a) simp
  have n: "nextVersion ?cfg (Some ''1.10.6'') = Inr ''1.11.0''"
    using example_next_minor by (simp add: nextVersion_def example_configs_def)
  have c: "bumpCodes ?cfg = bumpCodes example_configs" by (simp add: bumpCodes_def)
  have b: "(if ''all'' \<notin> set (skipCodeFor ?cfg) then bumpCodes ?cfg else proceed) (snd ?a)
      = (Inr (), snd ?b)"
    using example_bumpCodes c by (cases ?b) (simp add: example_configs_def)
  from dryRun_missing_type [OF h1 h2, of example_runtime example_state] a n b
  have "dryRun example_runtime ?cfg example_state
      = (Inl (Error ''SemVer type not specified''), snd ?b)"
    by blast
  then show ?thesis by simp
qed

theorem dryRun_missing_type_counterexample:
  "type (example_configs\<lparr>type := None\<rparr>) = None
 \<and> ''all'' \<notin> set (skipSemverFor (example_configs\<lparr>type := None\<rparr>))
 \<and> fst (dryRun example_runtime (example_configs\<lparr>type := None\<rparr>)
        (apiVersioner example_runtime example_configs
           (example_world\<lparr>files := (files example_world)(''android/build.gradle'' \<mapsto> ''android { }'')\<rparr>)))
   = Inl (Error ''Invalid versionCode version parsed (undefined)'')"
  by (simp add: dryRun_def nextVersion_def example_next_minor [simplified] bumpCodes_def
      eval_project eval_manager eval_pattern eval_number)




end
